theory Spec2Isabelle
  imports Main "HOL-Library.Sublist"
begin

section \<open>Python strings and integers\<close>

text \<open>
  A Python \<open>str\<close> is modelled as an Isabelle \<open>string\<close> whose characters are read as the
  code points 0..255. On that range the regular-expression class \<open>\d\<close> is exactly the ten
  ASCII digits, \<open>str.isspace\<close> (used by \<open>strip\<close>, \<open>split\<close> and \<open>\s\<close>) is the twelve
  characters listed in \<open>is_space\<close>, and \<open>str.lower\<close> shifts \<open>A..Z\<close> and the accented
  capitals \<open>0xC0..0xDE\<close> (without the multiplication sign \<open>0xD7\<close>) by 32.
  Python integers are unbounded and modelled as \<open>int\<close>.
\<close>

datatype py_error = ValueError | KeyError | OverflowError

definition is_digit :: "char \<Rightarrow> bool" where
  "is_digit c = (c \<in> set ''0123456789'')"

definition digit_val :: "char \<Rightarrow> int" where
  "digit_val c = int (of_char c) - 48"

definition is_space :: "char \<Rightarrow> bool" where
  "is_space c = ((of_char c :: nat) \<in> set [9, 10, 11, 12, 13, 28, 29, 30, 31, 32, 133, 160])"

definition lower_char :: "char \<Rightarrow> char" where
  "lower_char c =
     (let n = (of_char c :: nat)
      in if (65 \<le> n \<and> n \<le> 90) \<or> (192 \<le> n \<and> n \<le> 222 \<and> n \<noteq> 215)
         then char_of (n + 32) else c)"

definition lower :: "string \<Rightarrow> string" where
  "lower s = map lower_char s"

definition strip :: "string \<Rightarrow> string" where
  "strip s = rev (dropWhile is_space (rev (dropWhile is_space s)))"

text \<open>\<open>x in s\<close> and \<open>s.startswith(x)\<close> on strings are \<^const>\<open>sublist\<close> and \<^const>\<open>prefix\<close>.\<close>

text \<open>
  \<open>int(s)\<close> for a string, base ten. The whitespace it skips at both ends is not that of
  \<open>str.strip\<close>: a character below 127 is skipped only when it is one of the six ASCII
  blanks, so the separators \<open>0x1C..0x1F\<close> make \<open>int\<close> raise; of the characters above,
  \<open>0x85\<close> and \<open>0xA0\<close> are turned into a space first. Then one sign is allowed, then at
  least one digit; single underscores may separate digits. Anything else raises
  \<open>ValueError\<close>, and so does a literal of more than 4300 digits, the interpreter's
  default limit, which \<open>scraper.py\<close> does not change.
\<close>

definition is_int_space :: "char \<Rightarrow> bool" where
  "is_int_space c = ((of_char c :: nat) \<in> set [9, 10, 11, 12, 13, 32, 133, 160])"

definition int_strip :: "string \<Rightarrow> string" where
  "int_strip s = rev (dropWhile is_int_space (rev (dropWhile is_int_space s)))"

definition max_str_digits :: nat where
  "max_str_digits = 4300"

fun int_digits :: "int \<Rightarrow> string \<Rightarrow> py_error + int" where
  "int_digits acc [] = Inr acc"
| "int_digits acc (c # cs) =
     (if is_digit c then int_digits (10 * acc + digit_val c) cs
      else if c = CHR ''_'' then
        (case cs of
           [] \<Rightarrow> Inl ValueError
         | d # ds \<Rightarrow> if is_digit d then int_digits (10 * acc + digit_val d) ds else Inl ValueError)
      else Inl ValueError)"

definition int_unsigned :: "string \<Rightarrow> py_error + int" where
  "int_unsigned s =
     (case s of
        [] \<Rightarrow> Inl ValueError
      | d # ds \<Rightarrow>
          if is_digit d then
            (case int_digits (digit_val d) ds of
               Inl e \<Rightarrow> Inl e
             | Inr n \<Rightarrow>
                 if max_str_digits < length (filter is_digit s) then Inl ValueError else Inr n)
          else Inl ValueError)"

definition py_int :: "string \<Rightarrow> py_error + int" where
  "py_int s =
     (case int_strip s of
        [] \<Rightarrow> Inl ValueError
      | c # cs \<Rightarrow>
          if c = CHR ''+'' then int_unsigned cs
          else if c = CHR ''-'' then map_sum id uminus (int_unsigned cs)
          else int_unsigned (c # cs))"

text \<open>
  \<open>float(k)\<close> for an integer, as numpy and pandas convert an integer to \<open>float64\<close>: the
  nearest double, ties to the even significand, given here as the integer it denotes;
  \<open>None\<close> when the result would not be finite (\<open>OverflowError\<close>). Every integer of
  magnitude up to \<open>2^53\<close> is a double.
\<close>

function bit_length :: "int \<Rightarrow> nat" where
  "bit_length n = (if n \<le> 0 then 0 else Suc (bit_length (n div 2)))"
  by pat_completeness auto
termination
  by (relation "measure nat") auto

declare bit_length.simps [simp del]

definition to_double :: "int \<Rightarrow> int option" where
  "to_double k =
     (let a = \<bar>k\<bar>
      in if a \<le> 2 ^ 53 then Some k
         else
           (let e = bit_length a - 53;
                q = a div 2 ^ e;
                r = a mod 2 ^ e;
                q' = (if 2 ^ e < 2 * r \<or> (2 * r = 2 ^ e \<and> odd q) then q + 1 else q);
                m = q' * 2 ^ e
            in if 2 ^ 1024 \<le> m then None
               else Some (if k < 0 then - m else m)))"

section \<open>Text and price utilities\<close>

text \<open>
  The functions keep their names in \<open>scraper.py\<close>, without the leading underscore of the
  private ones. The currency tags \<open>"S"\<close> and \<open>"USD"\<close> are the constructors of \<open>moneda\<close>.
\<close>

datatype moneda = S | USD

definition parse_precio_con_moneda :: "string \<Rightarrow> py_error + (moneda option \<times> int option)" where
  "parse_precio_con_moneda precio_str =
     (if precio_str = [] then Inr (None, None)
      else
        let s = precio_str;
            moneda = (if sublist ''S/'' s \<or> prefix ''S/'' (strip s) then Some S
                      else if sublist ''$'' s then Some USD
                      else None);
            nums = filter is_digit s
        in if nums \<noteq> [] then
             (case py_int nums of Inl e \<Rightarrow> Inl e | Inr n \<Rightarrow> Inr (moneda, Some n))
           else Inr (moneda, None))"

text \<open>\<open>re.sub(r'\s+', ' ', text)\<close>: every maximal run of whitespace becomes one space.\<close>

fun sub_ws :: "bool \<Rightarrow> string \<Rightarrow> string" where
  "sub_ws in_run [] = []"
| "sub_ws in_run (c # cs) =
     (if is_space c then (if in_run then sub_ws True cs else CHR '' '' # sub_ws True cs)
      else c # sub_ws False cs)"

text \<open>
  \<open>re.search(r'(\d+)', text)\<close> finds the leftmost maximal run of digits; the match object
  is \<open>None\<close> when the text has no digit.
\<close>

definition first_digit_run :: "string \<Rightarrow> string" where
  "first_digit_run text = takeWhile is_digit (dropWhile (\<lambda>c. \<not> is_digit c) text)"

definition extract_int_from_text :: "string \<Rightarrow> py_error + int option" where
  "extract_int_from_text s =
     (let text = strip s;
          text = sub_ws False text;
          m = first_digit_run text
      in if m \<noteq> [] then map_sum id Some (py_int m) else Inr None)"

text \<open>The digits of a string read in base ten, position by position.\<close>

definition decimal_value :: "string \<Rightarrow> int" where
  "decimal_value ds = (\<Sum>i<length ds. digit_val (ds ! i) * 10 ^ (length ds - Suc i))"

section \<open>Listing tables\<close>

text \<open>
  A table (a pandas \<open>DataFrame\<close> with the canonical columns) is the list of its rows in
  index order; every cell is a string, as every extractor emits it. A table without rows
  is the empty list, whatever columns the \<open>DataFrame\<close> object has (\<open>pd.DataFrame()\<close> has
  none): the code only tests such a table for emptiness. The bathrooms
  column is the field \<open>banos\<close>.
\<close>

record listing =
  titulo :: string
  precio :: string
  m2 :: string
  dormitorios :: string
  banos :: string
  descripcion :: string
  link :: string
  imagen_url :: string

section \<open>The library\<close>

text \<open>
  \<open>pandas\<close> is not part of \<open>scraper.py\<close>. What it does with a column of parsed numbers
  is a parameter \<open>pd\<close> of the model. The column that \<open>Series.apply\<close> builds from the
  returned values (integers and \<open>None\<close>) is given by these values:
  \<open>maybe_convert_objects pd vs\<close> is the exception raised while the values are converted
  to a column, if any, and \<open>series_eq\<close>, \<open>series_ge\<close>, \<open>series_le\<close> are \<open>column == k\<close>,
  \<open>column >= k\<close> and \<open>column <= k\<close> for an integer \<open>k\<close>: a boolean column or an exception.
\<close>

record pandas =
  maybe_convert_objects :: "int option list \<Rightarrow> py_error option"
  series_eq :: "int option list \<Rightarrow> int \<Rightarrow> py_error + bool list"
  series_ge :: "int option list \<Rightarrow> int \<Rightarrow> py_error + bool list"
  series_le :: "int option list \<Rightarrow> int \<Rightarrow> py_error + bool list"

text \<open>
  The one property of the library the theorems rest on: integers of magnitude up to
  \<open>2^53\<close> are held and compared exactly, whatever dtype the column gets (\<open>int64\<close>,
  \<open>float64\<close> when integers mix with \<open>None\<close>, \<open>object\<close> when all cells are \<open>None\<close>), and a
  null cell compares false.
\<close>

definition exact_int :: "int \<Rightarrow> bool" where
  "exact_int k = (- (2 ^ 53) \<le> k \<and> k \<le> 2 ^ 53)"

definition exact_values :: "int option list \<Rightarrow> bool" where
  "exact_values vs = list_all (\<lambda>v. case v of None \<Rightarrow> True | Some x \<Rightarrow> exact_int x) vs"

definition exact_on_doubles :: "pandas \<Rightarrow> bool" where
  "exact_on_doubles pd =
     (\<forall>vs. exact_values vs \<longrightarrow>
        maybe_convert_objects pd vs = None
        \<and> (\<forall>k. exact_int k \<longrightarrow>
              series_eq pd vs k = Inr (map (\<lambda>v. v = Some k) vs)
              \<and> series_ge pd vs k = Inr (map (\<lambda>v. case v of None \<Rightarrow> False | Some x \<Rightarrow> k \<le> x) vs)
              \<and> series_le pd vs k = Inr (map (\<lambda>v. case v of None \<Rightarrow> False | Some x \<Rightarrow> x \<le> k) vs)))"

text \<open>
  The dtype inference of the library, used for the examples. A column whose cells are all
  \<open>None\<close> keeps them as objects and compares false; a column of integers without \<open>None\<close>
  holds and compares them exactly; a column that mixes integers with \<open>None\<close> is \<open>float64\<close>:
  its integers are rounded to doubles, and so is the integer it is compared with, which
  raises \<open>OverflowError\<close> when that integer is beyond the doubles. A value beyond the doubles
  makes the conversion to a column raise \<open>OverflowError\<close>.
\<close>

datatype dtype = Object_dtype | Int_dtype | Float64_dtype

definition infer_dtype :: "int option list \<Rightarrow> dtype" where
  "infer_dtype vs =
     (if list_all (\<lambda>v. v = None) vs then Object_dtype
      else if list_all (\<lambda>v. v \<noteq> None) vs then Int_dtype
      else Float64_dtype)"

definition float64_convert :: "int option list \<Rightarrow> py_error option" where
  "float64_convert vs =
     (if list_ex (\<lambda>v. case v of None \<Rightarrow> False | Some x \<Rightarrow> to_double x = None) vs
      then Some OverflowError else None)"

definition float64_compare ::
  "(int \<Rightarrow> int \<Rightarrow> bool) \<Rightarrow> int option list \<Rightarrow> int \<Rightarrow> py_error + bool list" where
  "float64_compare op vs k =
     (case infer_dtype vs of
        Object_dtype \<Rightarrow> Inr (map (\<lambda>v. False) vs)
      | Int_dtype \<Rightarrow> Inr (map (\<lambda>v. case v of None \<Rightarrow> False | Some x \<Rightarrow> op x k) vs)
      | Float64_dtype \<Rightarrow>
          (case to_double k of
             None \<Rightarrow> Inl OverflowError
           | Some k' \<Rightarrow>
               Inr (map (\<lambda>v. case v of
                              None \<Rightarrow> False
                            | Some x \<Rightarrow> (case to_double x of None \<Rightarrow> False | Some x' \<Rightarrow> op x' k'))
                      vs)))"

definition pandas_float64 :: pandas where
  "pandas_float64 =
     \<lparr>maybe_convert_objects = float64_convert,
      series_eq = float64_compare (\<lambda>x k. x = k),
      series_ge = float64_compare (\<lambda>x k. k \<le> x),
      series_le = float64_compare (\<lambda>x k. x \<le> k)\<rparr>"

section \<open>Filter engine\<close>

definition parse_price_soles :: "string \<Rightarrow> py_error + int option" where
  "parse_price_soles s =
     (case parse_precio_con_moneda s of
        Inl e \<Rightarrow> Inl e
      | Inr (moneda, val) \<Rightarrow> Inr (if moneda = Some S then val else None))"

text \<open>
  \<open>Series.apply(f)\<close>: \<open>f\<close> on every cell in order, the first exception propagating; then
  the values returned are converted to a column, which can raise too.
\<close>

fun series_apply :: "('a \<Rightarrow> py_error + 'b) \<Rightarrow> 'a list \<Rightarrow> py_error + 'b list" where
  "series_apply f [] = Inr []"
| "series_apply f (x # xs) =
     (case f x of
        Inl e \<Rightarrow> Inl e
      | Inr y \<Rightarrow> (case series_apply f xs of Inl e \<Rightarrow> Inl e | Inr ys \<Rightarrow> Inr (y # ys)))"

definition apply_numbers ::
  "pandas \<Rightarrow> ('a \<Rightarrow> py_error + int option) \<Rightarrow> 'a list \<Rightarrow> py_error + int option list" where
  "apply_numbers pd f xs =
     (case series_apply f xs of
        Inl e \<Rightarrow> Inl e
      | Inr vs \<Rightarrow> (case maybe_convert_objects pd vs of Some e \<Rightarrow> Inl e | None \<Rightarrow> Inr vs))"

text \<open>\<open>column.notnull()\<close>, which no dtype changes.\<close>

definition notnull :: "'a option list \<Rightarrow> bool list" where
  "notnull vs = map (\<lambda>v. v \<noteq> None) vs"

text \<open>\<open>mask &= other\<close> and \<open>a & b\<close> on boolean series of the same index.\<close>

definition mask_and :: "bool list \<Rightarrow> bool list \<Rightarrow> bool list" where
  "mask_and mask' other = map2 (\<and>) mask' other"

text \<open>\<open>dfc.loc[mask]\<close>: the rows whose mask entry is true, in order.\<close>

definition loc_mask :: "'a list \<Rightarrow> bool list \<Rightarrow> 'a list" where
  "loc_mask dfc mask' = map fst (filter snd (zip dfc mask'))"

text \<open>
  The two request blocks of \<open>_filter_df_strict\<close> are the same code on different columns:
  the guard on the request, then inside \<open>try\<close> both \<open>int(request)\<close> and the comparison of
  the column with it, and \<open>except: pass\<close>, which leaves the mask as it was whichever of
  the two raised.
\<close>

definition request_mask ::
  "pandas \<Rightarrow> string option \<Rightarrow> int option list \<Rightarrow> bool list \<Rightarrow> bool list" where
  "request_mask pd req num mask' =
     (case req of
        None \<Rightarrow> mask'
      | Some r \<Rightarrow>
          if r \<noteq> [] \<and> strip r \<noteq> [] \<and> r \<noteq> ''0'' then
            (case py_int r of
               Inl e \<Rightarrow> mask'
             | Inr req_int \<Rightarrow>
                 (case series_eq pd num req_int of
                    Inl e \<Rightarrow> mask'
                  | Inr eq \<Rightarrow> mask_and mask' (mask_and (notnull num) eq)))
          else mask')"

text \<open>The price block is not under \<open>try\<close>: an exception of a comparison propagates.\<close>

definition price_mask ::
  "pandas \<Rightarrow> int option \<Rightarrow> int option \<Rightarrow> int option list \<Rightarrow> bool list \<Rightarrow> py_error + bool list" where
  "price_mask pd price_min price_max precio_soles mask' =
     (if price_min \<noteq> None \<or> price_max \<noteq> None then
        (let pmin = (case price_min of Some p \<Rightarrow> p | None \<Rightarrow> - (10 ^ 12));
             pmax = (case price_max of Some p \<Rightarrow> p | None \<Rightarrow> 10 ^ 12);
             mask' = mask_and mask' (notnull precio_soles)
         in case series_ge pd precio_soles pmin of
              Inl e \<Rightarrow> Inl e
            | Inr ge \<Rightarrow>
                (case series_le pd precio_soles pmax of
                   Inl e \<Rightarrow> Inl e
                 | Inr le \<Rightarrow> Inr (mask_and mask' (mask_and ge le))))
      else Inr mask')"

definition filter_df_strict ::
  "pandas \<Rightarrow> listing list \<Rightarrow> string option \<Rightarrow> string option \<Rightarrow> int option \<Rightarrow> int option
     \<Rightarrow> py_error + listing list" where
  "filter_df_strict pd df dormitorios_req banos_req price_min price_max =
     (if df = [] then Inr []
      else
        (case apply_numbers pd parse_price_soles (map precio df) of
           Inl e \<Rightarrow> Inl e
         | Inr precio_soles \<Rightarrow>
        (case apply_numbers pd extract_int_from_text (map dormitorios df) of
           Inl e \<Rightarrow> Inl e
         | Inr dorm_num \<Rightarrow>
        (case apply_numbers pd extract_int_from_text (map banos df) of
           Inl e \<Rightarrow> Inl e
         | Inr banos_num \<Rightarrow>
             (let mask' = replicate (length df) True;
                  mask' = request_mask pd dormitorios_req dorm_num mask';
                  mask' = request_mask pd banos_req banos_num mask'
              in case price_mask pd price_min price_max precio_soles mask' of
                   Inl e \<Rightarrow> Inl e
                 | Inr mask' \<Rightarrow> Inr (loc_mask df mask'))))))"


text \<open>\<open>str.split()\<close> without argument: the maximal runs of non-whitespace characters.\<close>

fun split_from :: "string \<Rightarrow> string \<Rightarrow> string list" where
  "split_from cur [] = (if cur = [] then [] else [cur])"
| "split_from cur (c # cs) =
     (if is_space c then (if cur = [] then split_from [] cs else cur # split_from [] cs)
      else split_from (cur @ [c]) cs)"

definition split :: "string \<Rightarrow> string list" where
  "split s = split_from [] s"

text \<open>
  The helper column of the keyword filter: the five fields joined by single spaces, in lower
  case.
\<close>

definition texto_completo :: "listing \<Rightarrow> string" where
  "texto_completo r =
     lower (titulo r @ '' '' @ descripcion r @ '' '' @ m2 r @ '' '' @ dormitorios r @ '' '' @ banos r)"

text \<open>
  \<open>Series.str.contains(re.escape(p), na=False, case=False)\<close>: the literal \<open>p\<close> is searched
  ignoring case, that is, on the lower-cased characters of both.
\<close>

definition str_contains_nocase :: "string \<Rightarrow> string \<Rightarrow> bool" where
  "str_contains_nocase p text = sublist (lower p) (lower text)"

definition filter_by_keywords :: "listing list \<Rightarrow> string \<Rightarrow> listing list" where
  "filter_by_keywords df palabras_clave =
     (if df = [] \<or> palabras_clave = [] \<or> strip palabras_clave = [] then df
      else
        let palabras = split (lower palabras_clave);
            dfc = map (\<lambda>r. (r, texto_completo r)) df;
            dfc = fold (\<lambda>p dfc. filter (\<lambda>(r, t). str_contains_nocase p t) dfc) palabras dfc
        in map fst dfc)"

subsection \<open>The strict filter as a row predicate\<close>

text \<open>
  The reading of the specification: a request that is present, non-empty and not \<open>0\<close>
  demands that the field parses to the requested integer; a price bound demands a
  local-currency price between the bounds, a missing bound being unbounded.
\<close>

definition claimed_request_ok :: "string option \<Rightarrow> string \<Rightarrow> bool" where
  "claimed_request_ok req field =
     (case req of
        None \<Rightarrow> True
      | Some r \<Rightarrow>
          if r \<noteq> [] \<and> r \<noteq> ''0'' then
            (case py_int r of
               Inl e \<Rightarrow> False
             | Inr k \<Rightarrow> extract_int_from_text field = Inr (Some k))
          else True)"

definition claimed_price_ok :: "int option \<Rightarrow> int option \<Rightarrow> string \<Rightarrow> bool" where
  "claimed_price_ok price_min price_max p =
     (if price_min = None \<and> price_max = None then True
      else
        (case parse_precio_con_moneda p of
           Inr (Some S, Some v) \<Rightarrow>
             (case price_min of None \<Rightarrow> True | Some lo \<Rightarrow> lo \<le> v)
             \<and> (case price_max of None \<Rightarrow> True | Some hi \<Rightarrow> v \<le> hi)
         | _ \<Rightarrow> False))"

definition claimed_keep ::
  "string option \<Rightarrow> string option \<Rightarrow> int option \<Rightarrow> int option \<Rightarrow> listing \<Rightarrow> bool" where
  "claimed_keep dormitorios_req banos_req price_min price_max r =
     (claimed_request_ok dormitorios_req (dormitorios r)
      \<and> claimed_request_ok banos_req (banos r)
      \<and> claimed_price_ok price_min price_max (precio r))"

text \<open>
  What the code does: a request counts only when it is present, not \<open>0\<close> and parses as an
  integer; a missing price bound is replaced by \<open>-10^12\<close> or \<open>10^12\<close>.
\<close>

definition request_ok :: "string option \<Rightarrow> string \<Rightarrow> bool" where
  "request_ok req field =
     (case req of
        None \<Rightarrow> True
      | Some r \<Rightarrow>
          if r \<noteq> ''0'' then
            (case py_int r of
               Inl e \<Rightarrow> True
             | Inr k \<Rightarrow> extract_int_from_text field = Inr (Some k))
          else True)"

definition price_ok :: "int option \<Rightarrow> int option \<Rightarrow> string \<Rightarrow> bool" where
  "price_ok price_min price_max p =
     (if price_min = None \<and> price_max = None then True
      else
        (case parse_precio_con_moneda p of
           Inr (Some S, Some v) \<Rightarrow>
             (case price_min of None \<Rightarrow> - (10 ^ 12) | Some lo \<Rightarrow> lo) \<le> v
             \<and> v \<le> (case price_max of None \<Rightarrow> 10 ^ 12 | Some hi \<Rightarrow> hi)
         | _ \<Rightarrow> False))"

definition strict_keep ::
  "string option \<Rightarrow> string option \<Rightarrow> int option \<Rightarrow> int option \<Rightarrow> listing \<Rightarrow> bool" where
  "strict_keep dormitorios_req banos_req price_min price_max r =
     (request_ok dormitorios_req (dormitorios r)
      \<and> request_ok banos_req (banos r)
      \<and> price_ok price_min price_max (precio r))"

text \<open>A row with the given title, price, bedrooms, bathrooms and link, for the examples.\<close>

definition fila :: "string \<Rightarrow> string \<Rightarrow> string \<Rightarrow> string \<Rightarrow> string \<Rightarrow> listing" where
  "fila t p d b l =
     \<lparr>titulo = t, precio = p, m2 = '''', dormitorios = d, banos = b,
      descripcion = '''', link = l, imagen_url = ''''\<rparr>"

text \<open>
  The tables and arguments on which the arithmetic of the filter is exact: every price,
  bedrooms and bathrooms cell parses (it holds no more than 4300 digits) to no number or
  to an integer up to \<open>2^53\<close>; a request does not parse or parses to an integer of
  magnitude up to \<open>2^53\<close>; a bound is absent or of magnitude up to \<open>2^53\<close>.
\<close>

definition cell_exact :: "py_error + int option \<Rightarrow> bool" where
  "cell_exact c = (case c of Inl e \<Rightarrow> False | Inr None \<Rightarrow> True | Inr (Some v) \<Rightarrow> exact_int v)"

definition table_exact :: "listing list \<Rightarrow> bool" where
  "table_exact df =
     list_all (\<lambda>r. cell_exact (parse_price_soles (precio r))
                  \<and> cell_exact (extract_int_from_text (dormitorios r))
                  \<and> cell_exact (extract_int_from_text (banos r))) df"

definition request_exact :: "string option \<Rightarrow> bool" where
  "request_exact req =
     (case req of
        None \<Rightarrow> True
      | Some r \<Rightarrow> (case py_int r of Inl e \<Rightarrow> True | Inr k \<Rightarrow> exact_int k))"

definition bound_exact :: "int option \<Rightarrow> bool" where
  "bound_exact b = (case b of None \<Rightarrow> True | Some k \<Rightarrow> exact_int k)"

section \<open>Nestoria extractor\<close>

definition EXCEPCIONES :: "string list" where
  "EXCEPCIONES = [''miraflores'', ''tarapoto'', ''la molina'', ''magdalena'', ''lambayeque'',
                  ''ventanilla'', ''la victoria'']"

text \<open>\<open>s.replace(old, new)\<close> for one-character \<open>old\<close> and \<open>new\<close>.\<close>

definition replace_char :: "char \<Rightarrow> char \<Rightarrow> string \<Rightarrow> string" where
  "replace_char old new s = map (\<lambda>c. if c = old then new else c) s"

definition build_zona_slug_nestoria :: "string \<Rightarrow> string" where
  "build_zona_slug_nestoria zona_input =
     (if zona_input = [] \<or> strip zona_input = [] then ''lima''
      else
        let z = replace_char CHR '' '' CHR ''-'' (lower (strip zona_input))
        in if z \<notin> set (map lower EXCEPCIONES) then z else ''lima_'' @ z)"

text \<open>\<open>str(n)\<close> for an integer, as the f-strings of the URL print it.\<close>

fun str_nat :: "nat \<Rightarrow> string" where
  "str_nat n = (if n < 10 then [char_of (48 + n)] else str_nat (n div 10) @ [char_of (48 + n mod 10)])"

declare str_nat.simps [simp del]

definition str_int :: "int \<Rightarrow> string" where
  "str_int i = (if i < 0 then CHR ''-'' # str_nat (nat (- i)) else str_nat (nat i))"

fun join :: "string \<Rightarrow> string list \<Rightarrow> string" where
  "join sep [] = []"
| "join sep [x] = x"
| "join sep (x # y # ys) = x @ sep @ join sep (y # ys)"

text \<open>
  The parsed page is seen through the queries the extractor makes. An anchor and an image
  carry the attributes that are read (\<open>None\<close> when the attribute is absent); a list item
  carries, for every selector the loop tries, the text of the first matching element
  (\<open>get_text(" ", strip=True)\<close>), or \<open>None\<close> when no element matches. A tag object is
  always truthy, so \<open>x or y\<close> on two query results is the first that is not \<open>None\<close>.
\<close>

record a_tag =
  attr_data_href :: "string option"
  attr_href :: "string option"
  a_text :: string

record img_tag =
  attr_src :: "string option"
  attr_data_src :: "string option"

record li_tag =
  a_results_link :: "a_tag option"
  a_with_href :: "a_tag option"
  listing_title_text :: "string option"
  listing_title :: "string option"
  result_details_price_span :: "string option"
  result_details_price :: "string option"
  price_class :: "string option"
  listing_description :: "string option"
  result_summary :: "string option"
  li_text :: string
  first_img :: "img_tag option"

record soup =
  select_li_rating_new :: "li_tag list"
  select_main_listing_res_li :: "li_tag list"
  find_all_li :: "li_tag list"
  find_all_by_class :: "li_tag list"

text \<open>\<open>x or y\<close> on query results, and \<open>attr or default\<close> on attribute values.\<close>

definition or_else :: "'a option \<Rightarrow> 'a option \<Rightarrow> 'a option" where
  "or_else x y = (case x of Some v \<Rightarrow> Some v | None \<Rightarrow> y)"

definition or_str :: "string option \<Rightarrow> string \<Rightarrow> string" where
  "or_str x d = (case x of Some v \<Rightarrow> if v \<noteq> [] then v else d | None \<Rightarrow> d)"

text \<open>
  The three patterns of the loop, all with \<open>re.I\<close>: digits in group 1 (\<open>\d+\<close>, or
  \<open>\d{1,4}\<close> for the area), then \<open>\s*\<close>, then a literal: \<open>dormitori\<close>; \<open>ba\<close> followed by
  n with tilde (code point \<open>0xF1\<close>); \<open>m\<close> followed by superscript two (\<open>0xB2\<close>), or \<open>m2\<close>.
  At one position the match takes the greedy digits (at most \<open>max_digits\<close> of them), any
  whitespace, then one of the literals compared in lower case. Giving back a digit or a
  blank never helps, as no literal starts with either. \<open>re.search\<close> tries the positions
  from left to right.
\<close>

definition match_digits_then :: "nat option \<Rightarrow> string list \<Rightarrow> string \<Rightarrow> string option" where
  "match_digits_then max_digits literals t =
     (let run = takeWhile is_digit t;
          group1 = (case max_digits of None \<Rightarrow> run | Some k \<Rightarrow> take k run);
          rest = dropWhile is_space (drop (length group1) t)
      in if group1 \<noteq> [] \<and> list_ex (\<lambda>lit. prefix (lower lit) (lower rest)) literals
         then Some group1 else None)"

fun re_search :: "(string \<Rightarrow> 'a option) \<Rightarrow> string \<Rightarrow> 'a option" where
  "re_search match_at [] = match_at []"
| "re_search match_at (c # cs) =
     (case match_at (c # cs) of Some g \<Rightarrow> Some g | None \<Rightarrow> re_search match_at cs)"


text \<open>
  The steps of the loop body that the claims name: the anchor of an item, the link read
  from it and made absolute, and the text of the price element.
\<close>

definition li_a_tag :: "li_tag \<Rightarrow> a_tag option" where
  "li_a_tag li = or_else (a_results_link li) (a_with_href li)"

definition a_link :: "a_tag \<Rightarrow> string" where
  "a_link a =
     (let link0 = or_str (attr_data_href a) (or_str (attr_href a) '''')
      in if link0 \<noteq> [] \<and> prefix ''/'' link0 then ''https://www.nestoria.pe'' @ link0 else link0)"

definition li_price_text :: "li_tag \<Rightarrow> string" where
  "li_price_text li =
     (case or_else (result_details_price_span li)
             (or_else (result_details_price li) (price_class li)) of
        Some t \<Rightarrow> t | None \<Rightarrow> '''')"

text \<open>
  The dictionary appended for an item that passed the checks. None of its fields can
  raise; the title is computed before the price check in the source and used only here.
  The title element is never falsy, so the truncated fallback of the title is not
  reachable.
\<close>

definition nestoria_row :: "li_tag \<Rightarrow> a_tag \<Rightarrow> listing" where
  "nestoria_row li a =
     (let title = (case or_else (listing_title_text li) (listing_title li) of
                     Some t \<Rightarrow> t | None \<Rightarrow> a_text a);
          price_text = li_price_text li;
          desc = (case or_else (listing_description li) (result_summary li) of
                    Some d \<Rightarrow> d | None \<Rightarrow> take 800 (li_text li));
          text_content = lower (li_text li);
          dormitorios_text =
            (case re_search (match_digits_then None [''dormitori'']) text_content of
               Some g \<Rightarrow> g | None \<Rightarrow> '''');
          banos_text =
            (case re_search (match_digits_then None [''ba'' @ [CHR 0xF1]]) text_content of
               Some g \<Rightarrow> g | None \<Rightarrow> '''');
          m2_text =
            (case re_search (match_digits_then (Some 4) [''m'' @ [CHR 0xB2], ''m2'']) text_content of
               Some g \<Rightarrow> g | None \<Rightarrow> '''');
          img_url =
            (case first_img li of
               None \<Rightarrow> ''''
             | Some i \<Rightarrow>
                 (let u = or_str (attr_src i) (or_str (attr_data_src i) '''');
                      u = (if u \<noteq> [] \<and> prefix ''//'' u then ''https:'' @ u else u)
                  in strip u))
      in \<lparr>titulo = title, precio = price_text, m2 = m2_text,
          dormitorios = dormitorios_text, banos = banos_text,
          descripcion = desc, link = a_link a, imagen_url = img_url\<rparr>)"

text \<open>
  The body of the loop over the items for one \<open>li\<close>: \<open>None\<close> is \<open>continue\<close> (also from the
  \<open>except\<close> branch), \<open>Some\<close> is the dictionary appended to \<open>results\<close>.
\<close>

definition nestoria_item :: "int option \<Rightarrow> int option \<Rightarrow> string set \<Rightarrow> li_tag \<Rightarrow> listing option" where
  "nestoria_item price_min price_max seen_links li =
     (case li_a_tag li of
        None \<Rightarrow> None
      | Some a \<Rightarrow>
          if a_link a = [] \<or> a_link a \<in> seen_links then None
          else
            (case parse_precio_con_moneda (li_price_text li) of
               Inl e \<Rightarrow> None
             | Inr (moneda, precio_val) \<Rightarrow>
                 if (case (price_max, precio_val) of
                       (Some pmax, Some v) \<Rightarrow> moneda = Some S \<and> v > pmax
                     | _ \<Rightarrow> False) then None
                 else if (case (price_min, precio_val) of
                       (Some pmin, Some v) \<Rightarrow> moneda = Some S \<and> v < pmin
                     | _ \<Rightarrow> False) then None
                 else if moneda = Some USD \<and> (price_max \<noteq> None \<or> price_min \<noteq> None)
                   then None
                 else Some (nestoria_row li a)))"


fun nestoria_loop ::
  "int option \<Rightarrow> int option \<Rightarrow> li_tag list \<Rightarrow> string set \<Rightarrow> listing list \<Rightarrow> listing list" where
  "nestoria_loop price_min price_max [] seen_links results = results"
| "nestoria_loop price_min price_max (li # items) seen_links results =
     (case nestoria_item price_min price_max seen_links li of
        None \<Rightarrow> nestoria_loop price_min price_max items seen_links results
      | Some row \<Rightarrow>
          nestoria_loop price_min price_max items (insert (link row) seen_links) (results @ [row]))"

text \<open>The items: the first query of the chain that yields something.\<close>

definition nestoria_items :: "soup \<Rightarrow> li_tag list" where
  "nestoria_items page =
     (let items = (if select_li_rating_new page \<noteq> [] then select_li_rating_new page
                   else select_main_listing_res_li page);
          items = (if items = []
                   then filter (\<lambda>li. result_details_price li \<noteq> None) (find_all_li page)
                   else items);
          items = (if items = [] then find_all_by_class page else items)
      in items)"

text \<open>
  \<open>get_page_content\<close> fetches over the network; it is a parameter: the page it returns for
  a URL, or \<open>None\<close>. An absent page gives the empty table.
\<close>

definition scrape_nestoria ::
  "(string \<Rightarrow> soup option) \<Rightarrow> string \<Rightarrow> string \<Rightarrow> string \<Rightarrow> int option \<Rightarrow> int option
     \<Rightarrow> listing list" where
  "scrape_nestoria get_page_content zona dormitorios_arg banos_arg price_min price_max =
     (let zona_slug = build_zona_slug_nestoria zona;
          base_url = ''https://www.nestoria.pe/'' @ zona_slug @ ''/inmuebles/alquiler'';
          base_url = (if dormitorios_arg \<noteq> [] \<and> dormitorios_arg \<noteq> ''0''
                      then base_url @ ''/dormitorios-'' @ dormitorios_arg else base_url);
          params = [];
          params = (if banos_arg \<noteq> [] \<and> banos_arg \<noteq> ''0''
                    then params @ [''bathrooms='' @ banos_arg] else params);
          params = (case price_min of
                      Some p \<Rightarrow> if p \<noteq> 0 \<and> str_int p \<noteq> ''0''
                                then params @ [''price_min='' @ str_int p] else params
                    | None \<Rightarrow> params);
          params = (case price_max of
                      Some p \<Rightarrow> if p \<noteq> 0 \<and> str_int p \<noteq> ''0''
                                then params @ [''price_max='' @ str_int p] else params
                    | None \<Rightarrow> params);
          base_url = (if params \<noteq> [] then base_url @ ''?'' @ join ''&'' params else base_url)
      in case get_page_content base_url of
           None \<Rightarrow> []
         | Some page \<Rightarrow> nestoria_loop price_min price_max (nestoria_items page) {} [])"

text \<open>
  The early exclusion in the words of the specification: a local-currency price below
  the floor or above the ceiling, or a foreign-currency price when a bound is given.
\<close>

definition early_price_exclusion :: "int option \<Rightarrow> int option \<Rightarrow> string \<Rightarrow> bool" where
  "early_price_exclusion price_min price_max price_text =
     (case parse_precio_con_moneda price_text of
        Inr (Some S, Some v) \<Rightarrow>
          (case price_min of Some lo \<Rightarrow> v < lo | None \<Rightarrow> False)
          \<or> (case price_max of Some hi \<Rightarrow> hi < v | None \<Rightarrow> False)
      | Inr (Some USD, _) \<Rightarrow> price_min \<noteq> None \<or> price_max \<noteq> None
      | _ \<Rightarrow> False)"

text \<open>An item with the given \<open>href\<close> and price text, and a page made of such items, for the examples.\<close>

definition li_of :: "string \<Rightarrow> string \<Rightarrow> li_tag" where
  "li_of h p =
     \<lparr>a_results_link = None,
      a_with_href = Some \<lparr>attr_data_href = None, attr_href = Some h, a_text = ''Departamento''\<rparr>,
      listing_title_text = None, listing_title = None,
      result_details_price_span = None, result_details_price = Some p, price_class = None,
      listing_description = None, result_summary = None,
      li_text = ''Departamento 2 dormitorios '' @ p, first_img = None\<rparr>"

definition page_of :: "li_tag list \<Rightarrow> soup" where
  "page_of items =
     \<lparr>select_li_rating_new = items, select_main_listing_res_li = [],
      find_all_li = items, find_all_by_class = []\<rparr>"

section \<open>Aggregator\<close>

text \<open>
  The arguments of one run. The four extractors go to the network, so what a call of
  each does is a parameter of the model: it raises an exception, returns something that
  is not a table, or returns a table. So are the clock and the generator of identifiers:
  \<open>now_isoformat w name\<close> is the time stamp taken when the rows of source \<open>name\<close> are
  tagged, \<open>uuid4 w name i\<close> the identifier drawn for its \<open>i\<close>-th row.
\<close>

record query =
  q_zona :: string
  q_dormitorios :: string
  q_banos :: string
  q_price_min :: "int option"
  q_price_max :: "int option"
  q_palabras_clave :: string

datatype scraper_result = Raises | Returns_no_frame | Returns_frame "listing list"

type_synonym scraper = "query \<Rightarrow> scraper_result"

record world =
  site_nestoria :: scraper
  site_infocasas :: scraper
  site_properati :: scraper
  site_doomos :: scraper
  now_isoformat :: "string \<Rightarrow> string"
  uuid4 :: "string \<Rightarrow> nat \<Rightarrow> string"

definition SCRAPERS :: "world \<Rightarrow> (string \<times> scraper) list" where
  "SCRAPERS w =
     [(''nestoria'', site_nestoria w),
      (''infocasas'', site_infocasas w),
      (''properati'', site_properati w),
      (''doomos'', site_doomos w)]"

text \<open>A row of the unified table: the canonical columns and the three tags.\<close>

record anuncio = listing +
  fuente :: string
  scraped_at :: string
  id_str :: string

text \<open>
  \<open>df[col].astype(str).str.strip().replace({None: "", "None": ""})\<close> on every required
  column. A cell that is \<open>None\<close> or missing has become the empty string before
  (\<open>fillna\<close>, or the column added with \<open>""\<close>), which this maps to itself.
\<close>

definition normalize_cell :: "string \<Rightarrow> string" where
  "normalize_cell v = (let t = strip v in if t = ''None'' then '''' else t)"

definition normalize_row :: "listing \<Rightarrow> listing" where
  "normalize_row r =
     \<lparr>titulo = normalize_cell (titulo r), precio = normalize_cell (precio r),
      m2 = normalize_cell (m2 r), dormitorios = normalize_cell (dormitorios r),
      banos = normalize_cell (banos r), descripcion = normalize_cell (descripcion r),
      link = normalize_cell (link r), imagen_url = normalize_cell (imagen_url r)\<rparr>"

text \<open>
  The body of the loop for one source up to the keyword filter: the call under
  \<open>try\<close>/\<open>except Exception\<close>, the coercion to the canonical columns, the strict filter and,
  for the sources not exempted, the keyword filter.
\<close>

definition source_frame :: "pandas \<Rightarrow> query \<Rightarrow> string \<Rightarrow> scraper \<Rightarrow> py_error + listing list" where
  "source_frame pd q name func =
     (let df = (case func q of
                  Raises \<Rightarrow> []
                | Returns_no_frame \<Rightarrow> []
                | Returns_frame rows \<Rightarrow> rows);
          df = map normalize_row df
      in case filter_df_strict pd df (Some (q_dormitorios q)) (Some (q_banos q))
                (q_price_min q) (q_price_max q) of
           Inl e \<Rightarrow> Inl e
         | Inr df_filtered \<Rightarrow>
             Inr (if q_palabras_clave q \<noteq> [] \<and> strip (q_palabras_clave q) \<noteq> []
                     \<and> name \<notin> set [''urbania'', ''doomos'', ''properati'']
                  then filter_by_keywords df_filtered (q_palabras_clave q)
                  else df_filtered))"

definition stamp :: "world \<Rightarrow> string \<Rightarrow> listing list \<Rightarrow> anuncio list" where
  "stamp w name df_filtered =
     map (\<lambda>(i, r).
            \<lparr>titulo = titulo r, precio = precio r, m2 = m2 r, dormitorios = dormitorios r,
             banos = banos r, descripcion = descripcion r, link = link r,
             imagen_url = imagen_url r,
             fuente = name, scraped_at = now_isoformat w name, id_str = uuid4 w name i\<rparr>)
         (enumerate 0 df_filtered)"

fun run_loop ::
  "pandas \<Rightarrow> world \<Rightarrow> query \<Rightarrow> (string \<times> scraper) list \<Rightarrow> anuncio list list \<Rightarrow> py_error + anuncio list list" where
  "run_loop pd w q [] frames = Inr frames"
| "run_loop pd w q ((name, func) # rest) frames =
     (case source_frame pd q name func of
        Inl e \<Rightarrow> Inl e
      | Inr df_filtered \<Rightarrow>
          if length df_filtered > 0
          then run_loop pd w q rest (frames @ [stamp w name df_filtered])
          else run_loop pd w q rest frames)"

text \<open>
  \<open>drop_duplicates(subset=..., keep="first")\<close>: a row is dropped when its key has been
  seen on an earlier row.
\<close>

fun drop_duplicates :: "('a \<Rightarrow> 'k) \<Rightarrow> 'k set \<Rightarrow> 'a list \<Rightarrow> 'a list" where
  "drop_duplicates key seen [] = []"
| "drop_duplicates key seen (x # xs) =
     (if key x \<in> seen then drop_duplicates key seen xs
      else x # drop_duplicates key (insert (key x) seen) xs)"

definition run_scrapers :: "pandas \<Rightarrow> world \<Rightarrow> query \<Rightarrow> py_error + anuncio list" where
  "run_scrapers pd w q =
     (case run_loop pd w q (SCRAPERS w) [] of
        Inl e \<Rightarrow> Inl e
      | Inr frames \<Rightarrow>
          if frames = [] then Inr []
          else
            (let combined = concat frames;
                 combined = filter (\<lambda>r. \<not> prefix ''#'' (link r)) combined;
                 combined = filter (\<lambda>r. link r \<noteq> '''') combined;
                 combined = drop_duplicates (\<lambda>r. (link r, titulo r)) {} combined
             in Inr combined))"

text \<open>
  Deduplication keeping the first occurrence, said by positions: the rows whose key
  occurs at no earlier position, in their order.
\<close>

definition first_occurrences :: "('a \<Rightarrow> 'k) \<Rightarrow> 'a list \<Rightarrow> 'a list" where
  "first_occurrences key xs =
     map (\<lambda>i. xs ! i)
       (filter (\<lambda>i. list_all (\<lambda>j. key (xs ! j) \<noteq> key (xs ! i)) [0..<i]) [0..<length xs])"

text \<open>
  The runs on which the arithmetic of the strict filter is exact: the table a source
  returns is exact once its cells are normalised, and so are the requests and the bounds
  of the query.
\<close>

definition source_exact :: "scraper \<Rightarrow> query \<Rightarrow> bool" where
  "source_exact func q =
     (case func q of
        Returns_frame rows \<Rightarrow> table_exact (map normalize_row rows)
      | _ \<Rightarrow> True)"

definition query_exact :: "query \<Rightarrow> bool" where
  "query_exact q =
     (request_exact (Some (q_dormitorios q)) \<and> request_exact (Some (q_banos q))
      \<and> bound_exact (q_price_min q) \<and> bound_exact (q_price_max q))"

text \<open>
  A world in which the four extractors behave as given whatever the query, and a query
  without zone, for the examples.
\<close>

definition world_of ::
  "scraper_result \<Rightarrow> scraper_result \<Rightarrow> scraper_result \<Rightarrow> scraper_result \<Rightarrow> world" where
  "world_of n i p d =
     \<lparr>site_nestoria = (\<lambda>q. n), site_infocasas = (\<lambda>q. i), site_properati = (\<lambda>q. p),
      site_doomos = (\<lambda>q. d),
      now_isoformat = (\<lambda>name. ''2025-01-01T00:00:00''),
      uuid4 = (\<lambda>name i. name @ ''-'' @ str_nat i)\<rparr>"

definition query_of :: "string \<Rightarrow> string \<Rightarrow> int option \<Rightarrow> int option \<Rightarrow> string \<Rightarrow> query" where
  "query_of d b pmin pmax kw =
     \<lparr>q_zona = '''', q_dormitorios = d, q_banos = b, q_price_min = pmin, q_price_max = pmax,
      q_palabras_clave = kw\<rparr>"

section \<open>The filters on a store of table objects\<close>

text \<open>
  To speak about side effects, the two filters are modelled a second time on a store of
  table objects with identity. A \<open>DataFrame\<close> object holds the canonical columns with its
  rows, or no column at all (\<open>pd.DataFrame()\<close>, which has no rows), and the helper columns
  the filters add (\<open>_precio_soles\<close>, \<open>_dorm_num\<close>, \<open>_banos_num\<close>, \<open>texto_completo\<close>), each
  absent or present. \<open>copy\<close>, \<open>reset_index\<close>, \<open>loc\<close> and indexing with a mask create a new
  object; assigning a column and \<open>drop(..., inplace=True)\<close> change an object in place;
  reading an absent column raises \<open>KeyError\<close>.
\<close>

record frame =
  table :: "listing list option"
  col_precio_soles :: "int option list option"
  col_dorm_num :: "int option list option"
  col_banos_num :: "int option list option"
  col_texto_completo :: "string list option"

definition rows :: "frame \<Rightarrow> listing list" where
  "rows f = (case table f of None \<Rightarrow> [] | Some rs \<Rightarrow> rs)"

record store =
  objects :: "nat \<Rightarrow> frame"
  next_ref :: nat

definition empty_frame :: frame where
  "empty_frame = \<lparr>table = None, col_precio_soles = None, col_dorm_num = None,
                  col_banos_num = None, col_texto_completo = None\<rparr>"

definition new_object :: "store \<Rightarrow> frame \<Rightarrow> store \<times> nat" where
  "new_object s f = (s\<lparr>objects := (objects s)(next_ref s := f), next_ref := Suc (next_ref s)\<rparr>,
                     next_ref s)"

definition update_object :: "store \<Rightarrow> nat \<Rightarrow> (frame \<Rightarrow> frame) \<Rightarrow> store" where
  "update_object s r f = s\<lparr>objects := (objects s)(r := f (objects s r))\<rparr>"

definition frame_loc :: "frame \<Rightarrow> bool list \<Rightarrow> frame" where
  "frame_loc f mask' =
     \<lparr>table = map_option (\<lambda>rs. loc_mask rs mask') (table f),
      col_precio_soles = map_option (\<lambda>c. loc_mask c mask') (col_precio_soles f),
      col_dorm_num = map_option (\<lambda>c. loc_mask c mask') (col_dorm_num f),
      col_banos_num = map_option (\<lambda>c. loc_mask c mask') (col_banos_num f),
      col_texto_completo = map_option (\<lambda>c. loc_mask c mask') (col_texto_completo f)\<rparr>"

definition strict_mask ::
  "pandas \<Rightarrow> frame \<Rightarrow> string option \<Rightarrow> string option \<Rightarrow> int option \<Rightarrow> int option
     \<Rightarrow> py_error + bool list" where
  "strict_mask pd dfc dormitorios_req banos_req price_min price_max =
     (case (col_precio_soles dfc, col_dorm_num dfc, col_banos_num dfc) of
        (Some precio_soles, Some dorm_num, Some banos_num) \<Rightarrow>
          (let mask' = replicate (length (rows dfc)) True;
               mask' = request_mask pd dormitorios_req dorm_num mask';
               mask' = request_mask pd banos_req banos_num mask'
           in price_mask pd price_min price_max precio_soles mask')
      | _ \<Rightarrow> Inl KeyError)"

definition filter_df_strict_on ::
  "pandas \<Rightarrow> store \<Rightarrow> nat \<Rightarrow> string option \<Rightarrow> string option \<Rightarrow> int option \<Rightarrow> int option
     \<Rightarrow> py_error + store \<times> nat" where
  "filter_df_strict_on pd s df dormitorios_req banos_req price_min price_max =
     (if rows (objects s df) = [] then Inr (new_object s empty_frame)
      else
        (let (s, dfc) = new_object s (objects s df)
         in case apply_numbers pd parse_price_soles (map precio (rows (objects s dfc))) of
              Inl e \<Rightarrow> Inl e
            | Inr precio_soles \<Rightarrow>
        (let s = update_object s dfc (\<lambda>f. f\<lparr>col_precio_soles := Some precio_soles\<rparr>)
         in case apply_numbers pd extract_int_from_text (map dormitorios (rows (objects s dfc))) of
              Inl e \<Rightarrow> Inl e
            | Inr dorm_num \<Rightarrow>
        (let s = update_object s dfc (\<lambda>f. f\<lparr>col_dorm_num := Some dorm_num\<rparr>)
         in case apply_numbers pd extract_int_from_text (map banos (rows (objects s dfc))) of
              Inl e \<Rightarrow> Inl e
            | Inr banos_num \<Rightarrow>
        (let s = update_object s dfc (\<lambda>f. f\<lparr>col_banos_num := Some banos_num\<rparr>)
         in case strict_mask pd (objects s dfc) dormitorios_req banos_req price_min price_max of
              Inl e \<Rightarrow> Inl e
            | Inr mask' \<Rightarrow>
                (let (s, df_filtered) = new_object s (frame_loc (objects s dfc) mask');
                     s = update_object s df_filtered
                           (\<lambda>f. f\<lparr>col_precio_soles := None, col_dorm_num := None,
                                  col_banos_num := None\<rparr>)
                 in Inr (s, df_filtered)))))))"

fun keywords_loop :: "string list \<Rightarrow> store \<Rightarrow> nat \<Rightarrow> py_error + store \<times> nat" where
  "keywords_loop [] s dfc = Inr (s, dfc)"
| "keywords_loop (p # palabras) s dfc =
     (case col_texto_completo (objects s dfc) of
        None \<Rightarrow> Inl KeyError
      | Some texts \<Rightarrow>
          (let (s, dfc) = new_object s (frame_loc (objects s dfc) (map (str_contains_nocase p) texts))
           in keywords_loop palabras s dfc))"

definition filter_by_keywords_on :: "store \<Rightarrow> nat \<Rightarrow> string \<Rightarrow> py_error + store \<times> nat" where
  "filter_by_keywords_on s df palabras_clave =
     (if rows (objects s df) = [] \<or> palabras_clave = [] \<or> strip palabras_clave = []
      then Inr (s, df)
      else
        (let palabras = split (lower palabras_clave);
             (s, dfc) = new_object s (objects s df);
             s = update_object s dfc
                   (\<lambda>f. f\<lparr>col_texto_completo := Some (map texto_completo (rows f))\<rparr>)
         in case keywords_loop palabras s dfc of
              Inl e \<Rightarrow> Inl e
            | Inr (s, dfc) \<Rightarrow>
                Inr (update_object s dfc (\<lambda>f. f\<lparr>col_texto_completo := None\<rparr>), dfc)))"

text \<open>A store holding one table, as object \<open>0\<close>, for the examples.\<close>

definition store_of :: "listing list \<Rightarrow> store" where
  "store_of df =
     \<lparr>objects = (\<lambda>r. empty_frame)(0 := empty_frame\<lparr>table := Some df\<rparr>), next_ref = 1\<rparr>"

section \<open>Properties of the string and integer primitives\<close>

lemma decimal_value_Nil: "decimal_value [] = 0"
  by (simp add: decimal_value_def)

lemma decimal_value_Cons:
  "decimal_value (d # ds) = digit_val d * 10 ^ length ds + decimal_value ds"
  by (simp add: decimal_value_def sum.lessThan_Suc_shift del: sum.lessThan_Suc)

lemma int_digits_all_digits:
  "list_all is_digit ds \<Longrightarrow> int_digits acc ds = Inr (acc * 10 ^ length ds + decimal_value ds)"
proof (induction ds arbitrary: acc)
  case Nil
  then show ?case by (simp add: decimal_value_Nil)
next
  case (Cons d ds)
  then show ?case by (simp add: decimal_value_Cons algebra_simps)
qed

lemma digit_not_space: "is_digit c \<Longrightarrow> \<not> is_space c"
  by (auto simp: is_digit_def is_space_def)

lemma digit_not_int_space: "is_digit c \<Longrightarrow> \<not> is_int_space c"
  by (auto simp: is_digit_def is_int_space_def)

lemma dropWhile_both_ends_id:
  assumes "list_all (\<lambda>c. \<not> P c) s"
  shows "rev (dropWhile P (rev (dropWhile P s))) = s"
proof -
  have "\<And>xs. set xs \<subseteq> set s \<Longrightarrow> dropWhile P xs = xs"
    using assms by (simp add: list_all_iff dropWhile_eq_self_iff subset_iff)
  then show ?thesis by simp
qed

lemma strip_no_space: "list_all (\<lambda>c. \<not> is_space c) s \<Longrightarrow> strip s = s"
  unfolding strip_def by (rule dropWhile_both_ends_id)

lemma int_strip_no_space: "list_all (\<lambda>c. \<not> is_int_space c) s \<Longrightarrow> int_strip s = s"
  unfolding int_strip_def by (rule dropWhile_both_ends_id)

lemma filter_all_digits: "list_all is_digit ds \<Longrightarrow> filter is_digit ds = ds"
  by (simp add: list_all_iff)

lemma py_int_all_digits:
  assumes "ds \<noteq> []" "list_all is_digit ds"
  shows "py_int ds =
     (if max_str_digits < length ds then Inl ValueError else Inr (decimal_value ds))"
proof -
  have "list_all (\<lambda>c. \<not> is_int_space c) ds"
    using assms(2) by (auto simp: list_all_iff digit_not_int_space)
  then have s: "int_strip ds = ds" by (rule int_strip_no_space)
  obtain d ds' where ds: "ds = d # ds'" using assms(1) by (cases ds) auto
  have d: "is_digit d" "list_all is_digit ds'" using assms(2) ds by auto
  have n: "d \<noteq> CHR ''+''" "d \<noteq> CHR ''-''" using d(1) by (auto simp: is_digit_def)
  have f: "filter is_digit (d # ds') = d # ds'"
    using filter_all_digits[OF assms(2)] ds by simp
  have "int_unsigned (d # ds') =
     (if max_str_digits < length (d # ds') then Inl ValueError
      else Inr (decimal_value (d # ds')))"
    unfolding int_unsigned_def using d
    by (simp add: int_digits_all_digits decimal_value_Cons f del: filter.simps)
  then show ?thesis
    using n s ds by (simp add: py_int_def)
qed

lemma sublist_strip: "sublist (strip s) s"
proof -
  have "suffix (dropWhile is_space s) s" by (rule suffix_dropWhile)
  moreover have "prefix (strip s) (dropWhile is_space s)"
    unfolding strip_def
    by (metis prefix_def rev_append rev_rev_ident takeWhile_dropWhile_id)
  ultimately show ?thesis
    by (meson prefix_imp_sublist suffix_imp_sublist sublist_order.order_trans)
qed

lemma sublist_single: "sublist [c] s \<longleftrightarrow> c \<in> set s"
  by (induction s) (auto simp: sublist_Cons_right)

lemma parse_precio_con_moneda_total:
  "parse_precio_con_moneda s =
     (if max_str_digits < length (filter is_digit s) then Inl ValueError
      else Inr (if sublist ''S/'' s then Some S else if CHR ''$'' \<in> set s then Some USD else None,
                if filter is_digit s = [] then None
                else Some (decimal_value (filter is_digit s))))"
proof -
  have tag: "(sublist ''S/'' s \<or> prefix ''S/'' (strip s)) = sublist ''S/'' s"
    using sublist_strip[of s]
    by (metis prefix_imp_sublist sublist_order.order_trans)
  have num: "filter is_digit s \<noteq> [] \<Longrightarrow>
      py_int (filter is_digit s) =
        (if max_str_digits < length (filter is_digit s) then Inl ValueError
         else Inr (decimal_value (filter is_digit s)))"
    by (rule py_int_all_digits) (auto simp: list_all_iff)
  show ?thesis
  proof (cases "s = []")
    case True
    then show ?thesis by (simp add: parse_precio_con_moneda_def)
  next
    case False
    show ?thesis
    proof (cases "filter is_digit s = []")
      case True
      then show ?thesis
        using False unfolding parse_precio_con_moneda_def Let_def tag sublist_single
        by simp
    next
      case nonempty: False
      show ?thesis
        using False nonempty num[OF nonempty]
        unfolding parse_precio_con_moneda_def Let_def tag sublist_single
        by simp
    qed
  qed
qed

lemma digits_of_replicate:
  "is_digit c \<Longrightarrow> filter is_digit (s @ replicate n c) = filter is_digit s @ replicate n c"
  by simp

section \<open>Price parsing\<close>

text \<open>
  Claim C4, as the code has it. For every input string holding at most 4300 digits,
  \<open>parse_precio_con_moneda\<close> returns normally; the currency tag is local (\<open>S\<close>) when the
  marker \<open>S/\<close> occurs in the text, foreign (\<open>USD\<close>) when \<open>$\<close> occurs and \<open>S/\<close> does not, and
  nothing when neither occurs; the value is the base-ten reading of all digits of the
  text in their order, and nothing when the text has no digit. In particular the empty
  string gives (nothing, nothing). On a string of more than 4300 digits \<open>int\<close> raises
  \<open>ValueError\<close>, and so does the function.
\<close>

theorem parse_precio_con_moneda_spec:
  "parse_precio_con_moneda s =
     (if length (filter is_digit s) \<le> 4300 then
        Inr (if (\<exists>pre post. s = pre @ ''S/'' @ post) then Some S
             else if CHR ''$'' \<in> set s then Some USD else None,
             if filter is_digit s = [] then None
             else Some (decimal_value (filter is_digit s)))
      else Inl ValueError)"
  unfolding parse_precio_con_moneda_total sublist_def max_str_digits_def
  by (simp add: not_less)

theorem parse_precio_con_moneda_spec_witness:
  "parse_precio_con_moneda ''S/ 1,200'' = Inr (Some S, Some 1200)
   \<and> parse_precio_con_moneda ''$350'' = Inr (Some USD, Some 350)
   \<and> parse_precio_con_moneda ''$10 o S/ 35'' = Inr (Some S, Some 1035)
   \<and> parse_precio_con_moneda ''consultar'' = Inr (None, None)
   \<and> parse_precio_con_moneda '''' = Inr (None, None)"
proof -
  have dv: "decimal_value ''1200'' = 1200" "decimal_value ''350'' = 350"
    "decimal_value ''1035'' = 1035"
    by (simp_all add: decimal_value_Cons decimal_value_Nil digit_val_def)
  have fd: "filter is_digit ''S/ 1,200'' = ''1200''" "filter is_digit ''$350'' = ''350''"
    "filter is_digit ''$10 o S/ 35'' = ''1035''" "filter is_digit ''consultar'' = []"
    by (simp_all add: is_digit_def)
  have m1: "\<exists>pre post. ''S/ 1,200'' = pre @ ''S/'' @ post"
    unfolding sublist_def[symmetric] by code_simp
  have m2: "\<not> (\<exists>pre post. ''$350'' = pre @ ''S/'' @ post)"
    unfolding sublist_def[symmetric] by code_simp
  have m3: "\<exists>pre post. ''$10 o S/ 35'' = pre @ ''S/'' @ post"
    unfolding sublist_def[symmetric] by code_simp
  have m4: "\<not> (\<exists>pre post. ''consultar'' = pre @ ''S/'' @ post)"
    unfolding sublist_def[symmetric] by code_simp
  show ?thesis
    using parse_precio_con_moneda_spec[of "''S/ 1,200''"]
      parse_precio_con_moneda_spec[of "''$350''"]
      parse_precio_con_moneda_spec[of "''$10 o S/ 35''"]
      parse_precio_con_moneda_spec[of "''consultar''"]
      parse_precio_con_moneda_spec[of "''''"]
    unfolding fd dv
    by (simp only: m1 m2 m3 m4 if_True if_False, simp)
qed

text \<open>
  The claim as the specification words it, for every input string, fails on a price text
  of 4301 digits: the function raises \<open>ValueError\<close> and returns no value.
\<close>

theorem parse_precio_con_moneda_claim_counterexample:
  "parse_precio_con_moneda (''S/ '' @ replicate 4301 CHR ''7'') = Inl ValueError"
proof -
  have "is_digit CHR ''7''" by (simp add: is_digit_def)
  then have "filter is_digit (''S/ '' @ replicate 4301 CHR ''7'') = replicate 4301 CHR ''7''"
    by (simp add: is_digit_def)
  then show ?thesis
    unfolding parse_precio_con_moneda_total by (simp add: max_str_digits_def)
qed

section \<open>The strict filter computes a row predicate\<close>

lemma first_digit_run_digits: "list_all is_digit (first_digit_run t)"
  by (simp add: first_digit_run_def list_all_iff) (meson set_takeWhileD)

lemma extract_int_from_text_total:
  "extract_int_from_text s =
     (let m = first_digit_run (sub_ws False (strip s))
      in if m = [] then Inr None
         else if max_str_digits < length m then Inl ValueError
         else Inr (Some (decimal_value m)))"
  by (simp add: extract_int_from_text_def Let_def py_int_all_digits first_digit_run_digits)

lemma parse_price_soles_total:
  "parse_price_soles s =
     (if max_str_digits < length (filter is_digit s) then Inl ValueError
      else Inr (if sublist ''S/'' s \<and> filter is_digit s \<noteq> []
                then Some (decimal_value (filter is_digit s)) else None))"
  by (simp add: parse_price_soles_def parse_precio_con_moneda_total)

lemma series_apply_total:
  "(\<And>x. f x = Inr (g x)) \<Longrightarrow> series_apply f xs = Inr (map g xs)"
  by (induction xs) simp_all

lemma series_apply_Inr:
  "(\<And>x. x \<in> set xs \<Longrightarrow> f x = Inr (g x)) \<Longrightarrow> series_apply f xs = Inr (map g xs)"
  by (induction xs) simp_all

lemma series_apply_Inl:
  "x \<in> set xs \<Longrightarrow> f x = Inl e \<Longrightarrow> \<exists>e'. series_apply f xs = Inl e'"
  by (induction xs) (auto split: sum.splits)

lemma loc_mask_map: "loc_mask df (map P df) = filter P df"
  by (induction df) (simp_all add: loc_mask_def)

lemma mask_and_map: "mask_and (map P xs) (map Q xs) = map (\<lambda>x. P x \<and> Q x) xs"
  by (induction xs) (simp_all add: mask_and_def)

lemma replicate_True_map: "replicate (length df) True = map (\<lambda>r. True) df"
  by (induction df) simp_all

lemma notnull_map: "notnull (map g df) = map (\<lambda>r. g r \<noteq> None) df"
  by (simp add: notnull_def comp_def)

lemma int_unsigned_Inr_digit: "int_unsigned s = Inr k \<Longrightarrow> \<exists>c\<in>set s. is_digit c"
  by (cases s) (auto simp: int_unsigned_def split: if_splits)

lemma int_strip_subset: "set (int_strip r) \<subseteq> set r"
proof -
  have "set (int_strip r) \<subseteq> set (dropWhile is_int_space r)"
    unfolding int_strip_def using set_dropWhileD by fastforce
  then show ?thesis using set_dropWhileD by fastforce
qed

lemma py_int_Inr_digit:
  assumes "py_int r = Inr k"
  shows "\<exists>c\<in>set r. is_digit c"
proof -
  have "\<exists>c\<in>set (int_strip r). is_digit c"
  proof (cases "int_strip r")
    case Nil
    then show ?thesis using assms by (simp add: py_int_def)
  next
    case (Cons c cs)
    have "\<exists>k'. int_unsigned cs = Inr k' \<or> int_unsigned (c # cs) = Inr k'"
      using assms Cons
      by (cases "int_unsigned cs") (auto simp: py_int_def split: if_splits)
    then obtain k' where "int_unsigned cs = Inr k' \<or> int_unsigned (c # cs) = Inr k'" ..
    then have "(\<exists>c\<in>set cs. is_digit c) \<or> (\<exists>c\<in>set (c # cs). is_digit c)"
      using int_unsigned_Inr_digit by blast
    then show ?thesis using Cons by auto
  qed
  then show ?thesis using int_strip_subset by blast
qed

lemma strip_Nil_all_space: "strip s = [] \<Longrightarrow> list_all is_space s"
proof -
  assume "strip s = []"
  then have "dropWhile is_space (rev (dropWhile is_space s)) = []"
    by (simp add: strip_def)
  then have "\<forall>c\<in>set (dropWhile is_space s). is_space c"
    by (simp add: dropWhile_eq_Nil_conv)
  moreover have "s = takeWhile is_space s @ dropWhile is_space s" by simp
  ultimately have "\<forall>c\<in>set s. is_space c"
    by (metis Un_iff set_append set_takeWhileD)
  then show ?thesis by (simp add: list_all_iff)
qed

lemma py_int_Inr_strip:
  assumes "py_int r = Inr k"
  shows "strip r \<noteq> [] \<and> r \<noteq> []"
proof -
  obtain c where c: "c \<in> set r" "is_digit c" using py_int_Inr_digit[OF assms] by blast
  then have "\<not> list_all is_space r" using digit_not_space by (auto simp: list_all_iff)
  then have "strip r \<noteq> []" using strip_Nil_all_space by blast
  then show ?thesis using c by auto
qed

lemma to_double_exact: "exact_int k \<Longrightarrow> to_double k = Some k"
  by (auto simp: exact_int_def to_double_def Let_def abs_if)

lemma exact_values_to_double:
  "exact_values vs \<Longrightarrow> Some x \<in> set vs \<Longrightarrow> to_double x = Some x"
  by (rule to_double_exact) (auto simp: exact_values_def list_all_iff split: option.splits)

lemma float64_compare_exact:
  assumes "exact_values vs" and "exact_int k"
  shows "float64_compare op vs k =
     Inr (map (\<lambda>v. case v of None \<Rightarrow> False | Some x \<Rightarrow> op x k) vs)"
proof (cases "infer_dtype vs")
  case Object_dtype
  then have "list_all (\<lambda>v. v = None) vs"
    by (simp add: infer_dtype_def split: if_splits)
  then have "map (\<lambda>v. False) vs = map (\<lambda>v. case v of None \<Rightarrow> False | Some x \<Rightarrow> op x k) vs"
    by (auto simp: list_all_iff)
  then show ?thesis using Object_dtype by (simp add: float64_compare_def)
next
  case Int_dtype
  then show ?thesis by (simp add: float64_compare_def)
next
  case Float64_dtype
  have "map (\<lambda>v. case v of None \<Rightarrow> False
                 | Some x \<Rightarrow> (case to_double x of None \<Rightarrow> False | Some x' \<Rightarrow> op x' k)) vs
      = map (\<lambda>v. case v of None \<Rightarrow> False | Some x \<Rightarrow> op x k) vs"
    using exact_values_to_double[OF assms(1)] by (auto split: option.splits)
  then show ?thesis
    using Float64_dtype to_double_exact[OF assms(2)] by (simp add: float64_compare_def)
qed

lemma exact_on_doubles_pandas_float64: "exact_on_doubles pandas_float64"
proof -
  have c: "float64_convert vs = None" if "exact_values vs" for vs
    using exact_values_to_double[OF that]
    by (auto simp: float64_convert_def list_ex_iff split: option.splits)
  have e: "(\<lambda>v. case v of None \<Rightarrow> False | Some x \<Rightarrow> x = k) = (\<lambda>v. v = Some k)" for k :: int
    by (auto split: option.splits)
  show ?thesis
    unfolding exact_on_doubles_def pandas_float64_def
    by (simp add: c float64_compare_exact e)
qed

lemma request_mask_unparseable:
  "py_int r = Inl e \<Longrightarrow> request_mask pd (Some r) num mask' = request_mask pd None num mask'"
  by (simp add: request_mask_def)

lemma request_mask_map:
  assumes pd: "exact_on_doubles pd" and req: "request_exact req"
    and num: "exact_values (map g df)"
    and cells: "\<And>r. r \<in> set df \<Longrightarrow> extract_int_from_text (f r) = Inr (g r)"
  shows "request_mask pd req (map g df) (map P df) =
     map (\<lambda>r. P r \<and> request_ok req (f r)) df"
proof (cases req)
  case None
  then show ?thesis by (simp add: request_mask_def request_ok_def)
next
  case (Some r)
  show ?thesis
  proof (cases "py_int r")
    case (Inl e)
    then show ?thesis using Some by (auto simp: request_mask_def request_ok_def)
  next
    case (Inr k)
    have ne: "strip r \<noteq> []" "r \<noteq> []" using py_int_Inr_strip[OF Inr] by simp_all
    have k: "exact_int k" using req Some Inr by (simp add: request_exact_def)
    have eq: "series_eq pd (map g df) k = Inr (map (\<lambda>v. v = Some k) (map g df))"
      using pd num k unfolding exact_on_doubles_def by blast
    show ?thesis
    proof (cases "r = ''0''")
      case True
      then show ?thesis using Some by (simp add: request_mask_def request_ok_def)
    next
      case False
      have "request_mask pd req (map g df) (map P df) =
          mask_and (map P df) (mask_and (notnull (map g df)) (map (\<lambda>v. v = Some k) (map g df)))"
        using Some Inr ne False eq by (simp add: request_mask_def)
      also have "\<dots> = map (\<lambda>r. P r \<and> g r \<noteq> None \<and> g r = Some k) df"
        by (simp only: notnull_map map_map comp_def mask_and_map)
      also have "\<dots> = map (\<lambda>r. P r \<and> extract_int_from_text (f r) = Inr (Some k)) df"
        using cells by (intro map_cong) auto
      finally show ?thesis using Some Inr False by (simp add: request_ok_def)
    qed
  qed
qed

lemma exact_int_bounds: "exact_int (- (10 ^ 12))" "exact_int (10 ^ 12)"
  by (simp_all add: exact_int_def)

lemma price_mask_map:
  assumes pd: "exact_on_doubles pd" and lo: "bound_exact price_min" and hi: "bound_exact price_max"
    and num: "exact_values (map g df)"
    and cells: "\<And>r. r \<in> set df \<Longrightarrow> parse_price_soles (precio r) = Inr (g r)"
  shows "price_mask pd price_min price_max (map g df) (map P df) =
     Inr (map (\<lambda>r. P r \<and> price_ok price_min price_max (precio r)) df)"
proof (cases "price_min = None \<and> price_max = None")
  case True
  then show ?thesis by (simp add: price_mask_def price_ok_def)
next
  case False
  define pmin where "pmin = (case price_min of Some p \<Rightarrow> p | None \<Rightarrow> - (10 ^ 12 :: int))"
  define pmax where "pmax = (case price_max of Some p \<Rightarrow> p | None \<Rightarrow> (10 ^ 12 :: int))"
  have el: "exact_int pmin" "exact_int pmax"
    using lo hi exact_int_bounds
    by (auto simp: pmin_def pmax_def bound_exact_def split: option.splits)
  have ge: "series_ge pd (map g df) pmin =
      Inr (map (\<lambda>v. case v of None \<Rightarrow> False | Some x \<Rightarrow> pmin \<le> x) (map g df))"
    using pd num el(1) unfolding exact_on_doubles_def by blast
  have le: "series_le pd (map g df) pmax =
      Inr (map (\<lambda>v. case v of None \<Rightarrow> False | Some x \<Rightarrow> x \<le> pmax) (map g df))"
    using pd num el(2) unfolding exact_on_doubles_def by blast
  have c: "(price_min \<noteq> None \<or> price_max \<noteq> None) = True" using False by simp
  have "price_mask pd price_min price_max (map g df) (map P df)
      = Inr (map (\<lambda>r. (P r \<and> g r \<noteq> None)
            \<and> (case g r of None \<Rightarrow> False | Some x \<Rightarrow> pmin \<le> x)
            \<and> (case g r of None \<Rightarrow> False | Some x \<Rightarrow> x \<le> pmax)) df)"
    unfolding price_mask_def Let_def c pmin_def[symmetric] pmax_def[symmetric]
    by (simp only: if_True ge le sum.case notnull_map map_map comp_def mask_and_map)
  also have "\<dots> = Inr (map (\<lambda>r. P r \<and> price_ok price_min price_max (precio r)) df)"
  proof -
    have "((P r \<and> g r \<noteq> None)
            \<and> (case g r of None \<Rightarrow> False | Some x \<Rightarrow> pmin \<le> x)
            \<and> (case g r of None \<Rightarrow> False | Some x \<Rightarrow> x \<le> pmax))
        = (P r \<and> price_ok price_min price_max (precio r))" if "r \<in> set df" for r
      using cells[OF that] False
      by (auto simp: price_ok_def parse_price_soles_def pmin_def pmax_def
          split: option.splits sum.splits moneda.splits if_splits)
    then show ?thesis by (auto intro: map_cong)
  qed
  finally show ?thesis .
qed

lemma cell_exact_Inr: "cell_exact c \<Longrightarrow> c = Inr (projr c)"
  by (cases c) (simp_all add: cell_exact_def)

lemma cell_exact_projr:
  "cell_exact c \<Longrightarrow> (case projr c of None \<Rightarrow> True | Some x \<Rightarrow> exact_int x)"
  by (cases c) (simp_all add: cell_exact_def split: option.splits)

lemma apply_numbers_exact:
  assumes pd: "exact_on_doubles pd" and cells: "\<And>r. r \<in> set df \<Longrightarrow> cell_exact (f (h r))"
  shows "apply_numbers pd f (map h df) = Inr (map (\<lambda>r. projr (f (h r))) df)"
    and "exact_values (map (\<lambda>r. projr (f (h r))) df)"
proof -
  have a: "series_apply f (map h df) = Inr (map (\<lambda>x. projr (f x)) (map h df))"
    by (rule series_apply_Inr) (use cells cell_exact_Inr in auto)
  show b: "exact_values (map (\<lambda>r. projr (f (h r))) df)"
    using cells cell_exact_projr by (auto simp: exact_values_def list_all_iff)
  have "maybe_convert_objects pd (map (\<lambda>r. projr (f (h r))) df) = None"
    using pd b unfolding exact_on_doubles_def by blast
  then show "apply_numbers pd f (map h df) = Inr (map (\<lambda>r. projr (f (h r))) df)"
    by (simp add: apply_numbers_def a comp_def)
qed

lemma filter_df_strict_filter:
  assumes pd: "exact_on_doubles pd" and df: "table_exact df"
    and d: "request_exact dormitorios_req" and b: "request_exact banos_req"
    and lo: "bound_exact price_min" and hi: "bound_exact price_max"
  shows "filter_df_strict pd df dormitorios_req banos_req price_min price_max =
     Inr (filter (strict_keep dormitorios_req banos_req price_min price_max) df)"
proof -
  have cp: "\<And>r. r \<in> set df \<Longrightarrow> cell_exact (parse_price_soles (precio r))"
    and cd: "\<And>r. r \<in> set df \<Longrightarrow> cell_exact (extract_int_from_text (dormitorios r))"
    and cb: "\<And>r. r \<in> set df \<Longrightarrow> cell_exact (extract_int_from_text (banos r))"
    using df by (auto simp: table_exact_def list_all_iff)
  note p = apply_numbers_exact[of pd df parse_price_soles precio, OF pd cp]
  note dn = apply_numbers_exact[of pd df extract_int_from_text dormitorios, OF pd cd]
  note bn = apply_numbers_exact[of pd df extract_int_from_text banos, OF pd cb]
  have m1: "request_mask pd dormitorios_req
        (map (\<lambda>r. projr (extract_int_from_text (dormitorios r))) df) (map (\<lambda>r. True) df)
      = map (\<lambda>r. True \<and> request_ok dormitorios_req (dormitorios r)) df"
    by (rule request_mask_map[OF pd d dn(2)]) (use cd cell_exact_Inr in auto)
  have m2: "request_mask pd banos_req
        (map (\<lambda>r. projr (extract_int_from_text (banos r))) df)
        (map (\<lambda>r. True \<and> request_ok dormitorios_req (dormitorios r)) df)
      = map (\<lambda>r. (True \<and> request_ok dormitorios_req (dormitorios r))
                 \<and> request_ok banos_req (banos r)) df"
    by (rule request_mask_map[OF pd b bn(2)]) (use cb cell_exact_Inr in auto)
  have m3: "price_mask pd price_min price_max
        (map (\<lambda>r. projr (parse_price_soles (precio r))) df)
        (map (\<lambda>r. (True \<and> request_ok dormitorios_req (dormitorios r))
                 \<and> request_ok banos_req (banos r)) df)
      = Inr (map (\<lambda>r. ((True \<and> request_ok dormitorios_req (dormitorios r))
                 \<and> request_ok banos_req (banos r))
                 \<and> price_ok price_min price_max (precio r)) df)"
    by (rule price_mask_map[OF pd lo hi p(2)]) (use cp cell_exact_Inr in auto)
  show ?thesis
  proof (cases "df = []")
    case True
    then show ?thesis by (simp add: filter_df_strict_def)
  next
    case False
    then show ?thesis
      unfolding filter_df_strict_def Let_def replicate_True_map
      by (simp only: if_False p(1) dn(1) bn(1) sum.case m1 m2 m3 loc_mask_map)
         (simp add: strict_keep_def[abs_def])
  qed
qed

section \<open>Strict filter\<close>

text \<open>
  Claim C1, as the code has it. Let the library hold and compare integers of magnitude up
  to \<open>2^53\<close> exactly, let every price, bedrooms and bathrooms cell of the table parse (no
  cell holds more than 4300 digits) to nothing or to an integer of magnitude up to \<open>2^53\<close>,
  and let every request that parses as an integer and every price bound given be of
  magnitude up to \<open>2^53\<close>. Then \<open>_filter_df_strict\<close> returns normally, and it retains, in
  their order, exactly the rows for which: each of the bedroom and bathroom requests that
  is present, is not \<open>0\<close> and parses as an integer is equalled by the integer parsed from the
  row's field (a field without digits fails; a request that does not parse as an integer
  is ignored); and, when a price bound is given, the row's price is a local-currency
  integer between \<open>price_min\<close> (or \<open>-10^12\<close> when absent) and \<open>price_max\<close> (or \<open>10^12\<close> when
  absent), inclusive. Without a price bound the price is not checked.
\<close>

theorem filter_df_strict_amended:
  assumes "exact_on_doubles pd" and "table_exact df"
    and "request_exact dormitorios_req" and "request_exact banos_req"
    and "bound_exact price_min" and "bound_exact price_max"
  shows "filter_df_strict pd df dormitorios_req banos_req price_min price_max =
     Inr (filter (strict_keep dormitorios_req banos_req price_min price_max) df)"
  using assms by (rule filter_df_strict_filter)

theorem filter_df_strict_amended_witness:
  "exact_on_doubles pandas_float64
   \<and> table_exact
     [fila ''a'' '''' ''1'' '''' ''u1'', fila ''b'' '''' ''2'' '''' ''u2'',
      fila ''c'' '''' ''2'' '''' ''u3'', fila ''d'' '''' ''x'' '''' ''u4'']
   \<and> request_exact (Some ''2'') \<and> request_exact (Some ''0'') \<and> bound_exact None
   \<and> filter_df_strict pandas_float64
     [fila ''a'' '''' ''1'' '''' ''u1'', fila ''b'' '''' ''2'' '''' ''u2'',
      fila ''c'' '''' ''2'' '''' ''u3'', fila ''d'' '''' ''x'' '''' ''u4'']
     (Some ''2'') (Some ''0'') None None
   = Inr [fila ''b'' '''' ''2'' '''' ''u2'', fila ''c'' '''' ''2'' '''' ''u3'']
   \<and> table_exact
     [fila ''a'' ''S/ 799'' '''' '''' ''u1'', fila ''b'' ''S/ 800'' '''' '''' ''u2'',
      fila ''c'' ''S/ 1,500'' '''' '''' ''u3'', fila ''d'' ''S/ 1501'' '''' '''' ''u4'',
      fila ''e'' ''$ 900'' '''' '''' ''u5'', fila ''f'' ''900'' '''' '''' ''u6'']
   \<and> request_exact None \<and> bound_exact (Some 800) \<and> bound_exact (Some 1500)
   \<and> filter_df_strict pandas_float64
     [fila ''a'' ''S/ 799'' '''' '''' ''u1'', fila ''b'' ''S/ 800'' '''' '''' ''u2'',
      fila ''c'' ''S/ 1,500'' '''' '''' ''u3'', fila ''d'' ''S/ 1501'' '''' '''' ''u4'',
      fila ''e'' ''$ 900'' '''' '''' ''u5'', fila ''f'' ''900'' '''' '''' ''u6'']
     None None (Some 800) (Some 1500)
   = Inr [fila ''b'' ''S/ 800'' '''' '''' ''u2'', fila ''c'' ''S/ 1,500'' '''' '''' ''u3'']"
proof -
  let ?t1 = "[fila ''a'' '''' ''1'' '''' ''u1'', fila ''b'' '''' ''2'' '''' ''u2'',
      fila ''c'' '''' ''2'' '''' ''u3'', fila ''d'' '''' ''x'' '''' ''u4'']"
  let ?t2 = "[fila ''a'' ''S/ 799'' '''' '''' ''u1'', fila ''b'' ''S/ 800'' '''' '''' ''u2'',
      fila ''c'' ''S/ 1,500'' '''' '''' ''u3'', fila ''d'' ''S/ 1501'' '''' '''' ''u4'',
      fila ''e'' ''$ 900'' '''' '''' ''u5'', fila ''f'' ''900'' '''' '''' ''u6'']"
  note pd = exact_on_doubles_pandas_float64
  have t1: "table_exact ?t1" by code_simp
  have t2: "table_exact ?t2" by code_simp
  have r: "request_exact (Some ''2'')" "request_exact (Some ''0'')" "request_exact None"
    by code_simp+
  have b: "bound_exact None" "bound_exact (Some 800)" "bound_exact (Some 1500)"
    by (simp_all add: bound_exact_def exact_int_def)
  have f1: "filter (strict_keep (Some ''2'') (Some ''0'') None None) ?t1
     = [fila ''b'' '''' ''2'' '''' ''u2'', fila ''c'' '''' ''2'' '''' ''u3'']"
    by code_simp
  have f2: "filter (strict_keep None None (Some 800) (Some 1500)) ?t2
     = [fila ''b'' ''S/ 800'' '''' '''' ''u2'', fila ''c'' ''S/ 1,500'' '''' '''' ''u3'']"
    by code_simp
  have a1: "filter_df_strict pandas_float64 ?t1 (Some ''2'') (Some ''0'') None None
     = Inr [fila ''b'' '''' ''2'' '''' ''u2'', fila ''c'' '''' ''2'' '''' ''u3'']"
    using filter_df_strict_amended[OF pd t1 r(1) r(2) b(1) b(1)] by (simp only: f1)
  have a2: "filter_df_strict pandas_float64 ?t2 None None (Some 800) (Some 1500)
     = Inr [fila ''b'' ''S/ 800'' '''' '''' ''u2'', fila ''c'' ''S/ 1,500'' '''' '''' ''u3'']"
    using filter_df_strict_amended[OF pd t2 r(3) r(3) b(2) b(3)] by (simp only: f2)
  show ?thesis
    using pd t1 t2 r b a1 a2 by (intro conjI)
qed

text \<open>
  The claim as the specification words it fails on two inputs: the request \<open>abc\<close> is
  present, non-empty and not \<open>0\<close>, yet the row is retained, where the claim retains no row;
  and with only \<open>price_min\<close> given, a local-currency price above \<open>10^12\<close> is dropped although
  it lies in \<open>[price_min, +\<infinity>)\<close>, where the claim retains it.
\<close>

theorem filter_df_strict_claim_counterexample:
  "filter_df_strict pandas_float64 [fila ''a'' '''' ''2'' '''' ''u1''] (Some ''abc'') None None None
     = Inr [fila ''a'' '''' ''2'' '''' ''u1'']
   \<and> filter (claimed_keep (Some ''abc'') None None None) [fila ''a'' '''' ''2'' '''' ''u1''] = []
   \<and> filter_df_strict pandas_float64 [fila ''a'' ''S/ 2000000000000'' '''' '''' ''u1'']
        None None (Some 800) None
     = Inr []
   \<and> filter (claimed_keep None None (Some 800) None)
        [fila ''a'' ''S/ 2000000000000'' '''' '''' ''u1'']
     = [fila ''a'' ''S/ 2000000000000'' '''' '''' ''u1'']"
  by code_simp

text \<open>
  Claim C9, as the code has it. When the bedroom (or bathroom) request is a non-empty
  string other than \<open>0\<close> that \<open>int\<close> rejects, \<open>_filter_df_strict\<close> does what it does without
  that request, whatever the library does: it returns the same table or raises the same
  exception. With both requests of that kind and no price bound, every row is retained,
  when the cells of the table parse to nothing or to integers of magnitude up to \<open>2^53\<close>
  in a library that holds them exactly.
\<close>

theorem filter_df_strict_unparseable_request:
  assumes "r \<noteq> []" and "r \<noteq> ''0''" and "py_int r = Inl e"
  shows "filter_df_strict pd df (Some r) banos_req price_min price_max
           = filter_df_strict pd df None banos_req price_min price_max
       \<and> filter_df_strict pd df dormitorios_req (Some r) price_min price_max
           = filter_df_strict pd df dormitorios_req None price_min price_max
       \<and> (exact_on_doubles pd \<and> table_exact df
            \<longrightarrow> filter_df_strict pd df (Some r) (Some r) None None = Inr df)"
proof -
  have u: "\<And>num m. request_mask pd (Some r) num m = request_mask pd None num m"
    using assms(3) by (rule request_mask_unparseable)
  have a: "filter_df_strict pd df (Some r) banos_req price_min price_max
           = filter_df_strict pd df None banos_req price_min price_max"
    unfolding filter_df_strict_def u ..
  have b: "filter_df_strict pd df dormitorios_req (Some r) price_min price_max
           = filter_df_strict pd df dormitorios_req None price_min price_max"
    unfolding filter_df_strict_def u ..
  have c: "filter_df_strict pd df (Some r) (Some r) None None = Inr df"
    if "exact_on_doubles pd" "table_exact df"
  proof -
    have "request_exact (Some r)" using assms(3) by (simp add: request_exact_def)
    moreover have "bound_exact None" by (simp add: bound_exact_def)
    ultimately have "filter_df_strict pd df (Some r) (Some r) None None
        = Inr (filter (strict_keep (Some r) (Some r) None None) df)"
      using that by (intro filter_df_strict_filter)
    then show ?thesis
      using assms(3) by (simp add: strict_keep_def[abs_def] request_ok_def price_ok_def)
  qed
  show ?thesis using a b c by blast
qed

theorem filter_df_strict_unparseable_request_witness:
  "''abc'' \<noteq> [] \<and> ''abc'' \<noteq> ''0'' \<and> py_int ''abc'' = Inl ValueError
   \<and> exact_on_doubles pandas_float64
   \<and> table_exact [fila ''a'' '''' ''1'' '''' ''u1'', fila ''b'' '''' ''x'' ''3'' ''u2'']
   \<and> filter_df_strict pandas_float64
       [fila ''a'' '''' ''1'' '''' ''u1'', fila ''b'' '''' ''x'' ''3'' ''u2'']
       (Some ''abc'') (Some ''abc'') None None
     = Inr [fila ''a'' '''' ''1'' '''' ''u1'', fila ''b'' '''' ''x'' ''3'' ''u2'']
   \<and> filter_df_strict pandas_float64
       [fila ''a'' '''' ''1'' '''' ''u1'', fila ''b'' '''' ''x'' ''3'' ''u2'']
       (Some ''abc'') (Some ''3'') None None
     = Inr [fila ''b'' '''' ''x'' ''3'' ''u2'']"
proof -
  let ?t = "[fila ''a'' '''' ''1'' '''' ''u1'', fila ''b'' '''' ''x'' ''3'' ''u2'']"
  have p: "py_int ''abc'' = Inl ValueError" by code_simp
  have n: "''abc'' \<noteq> []" "''abc'' \<noteq> ''0''" by simp_all
  note pd = exact_on_doubles_pandas_float64
  have te: "table_exact ?t" by code_simp
  note t = filter_df_strict_unparseable_request[OF n p, of pandas_float64 ?t "Some ''3''" None None None]
  have a: "filter_df_strict pandas_float64 ?t (Some ''abc'') (Some ''abc'') None None = Inr ?t"
    using t pd te by blast
  have "filter_df_strict pandas_float64 ?t None (Some ''3'') None None
      = Inr [fila ''b'' '''' ''x'' ''3'' ''u2'']"
    by code_simp
  then have b: "filter_df_strict pandas_float64 ?t (Some ''abc'') (Some ''3'') None None
      = Inr [fila ''b'' '''' ''x'' ''3'' ''u2'']"
    using t by simp
  show ?thesis using n p pd te a b by (intro conjI)
qed

text \<open>
  The claim as the specification words it, for every input table, fails on a table with a
  price cell of 4301 digits: with the request \<open>abc\<close> the filter raises \<open>ValueError\<close>, from
  \<open>int\<close> on the digits of the price.
\<close>

theorem filter_df_strict_unparseable_request_counterexample:
  "py_int ''abc'' = Inl ValueError
   \<and> filter_df_strict pandas_float64
       [fila ''a'' (''S/ '' @ replicate 4301 CHR ''7'') ''2'' ''1'' ''u1'']
       (Some ''abc'') None None None
     = Inl ValueError"
proof -
  have p: "py_int ''abc'' = Inl ValueError" by code_simp
  have "parse_price_soles (''S/ '' @ replicate 4301 CHR ''7'') = Inl ValueError"
    unfolding parse_price_soles_total by (simp add: is_digit_def max_str_digits_def)
  then have "filter_df_strict pandas_float64
       [fila ''a'' (''S/ '' @ replicate 4301 CHR ''7'') ''2'' ''1'' ''u1'']
       (Some ''abc'') None None None = Inl ValueError"
    by (simp add: filter_df_strict_def apply_numbers_def fila_def)
  then show ?thesis using p by (intro conjI)
qed

section \<open>The keyword filter computes a row predicate\<close>

lemma of_char_lt_256: "(of_char c :: nat) < 256"
  by (cases c) (simp del: of_char_of)

lemma lower_char_idem: "lower_char (lower_char c) = lower_char c"
  using of_char_lt_256[of c] by (auto simp: lower_char_def Let_def)

lemma lower_idem: "lower (lower s) = lower s"
  by (simp add: lower_def lower_char_idem)

lemma is_space_lower_char: "is_space (lower_char c) = is_space c"
  using of_char_lt_256[of c] by (auto simp: lower_char_def is_space_def Let_def)

lemma lower_append: "lower (a @ b) = lower a @ lower b"
  by (simp add: lower_def)

lemma lower_Nil_iff: "lower s = [] \<longleftrightarrow> s = []"
  by (simp add: lower_def)

lemma split_from_lower:
  "split_from (lower cur) (lower s) = map lower (split_from cur s)"
proof (induction s arbitrary: cur)
  case Nil
  then show ?case by (simp add: lower_def)
next
  case (Cons c s)
  have "split_from (lower cur @ [lower_char c]) (lower s) = map lower (split_from (cur @ [c]) s)"
    using Cons[of "cur @ [c]"] by (simp add: lower_def)
  moreover have "split_from [] (lower s) = map lower (split_from [] s)"
    using Cons[of "[]"] by (simp add: lower_def)
  ultimately show ?case
    by (simp add: lower_def is_space_lower_char)
qed

lemma split_lower: "split (lower s) = map lower (split s)"
  using split_from_lower[of "[]" s] by (simp add: split_def lower_def)

lemma fold_filter:
  "fold (\<lambda>p dfc. filter (Q p) dfc) ps xs = filter (\<lambda>x. list_all (\<lambda>p. Q p x) ps) xs"
proof (induction ps arbitrary: xs)
  case Nil
  then show ?case by simp
next
  case (Cons p ps)
  then show ?case by (simp add: conj_commute)
qed

lemma filter_by_keywords_filter:
  "filter_by_keywords df palabras_clave =
     (if strip palabras_clave = [] then df
      else filter (\<lambda>r. list_all (\<lambda>w. sublist (lower w) (texto_completo r)) (split palabras_clave)) df)"
proof -
  have s0: "strip [] = []" by (simp add: strip_def)
  have low: "\<And>r. lower (texto_completo r) = texto_completo r"
    by (simp add: texto_completo_def lower_idem)
  have "map fst (fold (\<lambda>p dfc. filter (\<lambda>(r, t). str_contains_nocase p t) dfc)
                   (split (lower palabras_clave)) (map (\<lambda>r. (r, texto_completo r)) df))
        = filter (\<lambda>r. list_all (\<lambda>w. sublist (lower w) (texto_completo r)) (split palabras_clave)) df"
    unfolding fold_filter split_lower
    by (induction df)
       (simp_all add: str_contains_nocase_def low lower_idem list_all_iff)
  then show ?thesis
    using s0 by (auto simp: filter_by_keywords_def Let_def)
qed

lemma split_from_words:
  "list_all (\<lambda>c. \<not> is_space c) cur \<Longrightarrow> w \<in> set (split_from cur s)
     \<Longrightarrow> w \<noteq> [] \<and> list_all (\<lambda>c. \<not> is_space c) w"
proof (induction s arbitrary: cur)
  case Nil
  then show ?case by (auto split: if_splits)
next
  case (Cons c s)
  show ?case
  proof (cases "is_space c")
    case True
    then have "w = cur \<and> cur \<noteq> [] \<or> w \<in> set (split_from [] s)"
      using Cons.prems(2) by (auto split: if_splits)
    then show ?thesis using Cons.prems(1) Cons.IH[of "[]"] by auto
  next
    case False
    then have "w \<in> set (split_from (cur @ [c]) s)" using Cons.prems(2) by simp
    moreover have "list_all (\<lambda>c. \<not> is_space c) (cur @ [c])" using False Cons.prems(1) by simp
    ultimately show ?thesis using Cons.IH[of "cur @ [c]"] by blast
  qed
qed

lemma split_words:
  "w \<in> set (split s) \<Longrightarrow> w \<noteq> [] \<and> list_all (\<lambda>c. \<not> is_space c) w"
  using split_from_words[of "[]" w s] by (simp add: split_def)

lemma sublist_across_space:
  assumes "w \<noteq> []" and "CHR '' '' \<notin> set w"
  shows "sublist w (a @ '' '' @ b) \<longleftrightarrow> sublist w a \<or> sublist w b"
proof -
  have p: "\<And>v. v \<noteq> [] \<Longrightarrow> CHR '' '' \<notin> set v \<Longrightarrow> \<not> prefix v (CHR '' '' # b)"
    by (auto simp: prefix_Cons neq_Nil_conv)
  have "sublist w (CHR '' '' # b) \<longleftrightarrow> sublist w b"
    using p[OF assms] by (simp add: sublist_Cons_right)
  moreover have "(\<exists>xs1 xs2. w = xs1 @ xs2 \<and> suffix xs1 a \<and> prefix xs2 (CHR '' '' # b))
      \<longrightarrow> sublist w a"
  proof (intro impI, elim exE conjE)
    fix xs1 xs2 assume h: "w = xs1 @ xs2" "suffix xs1 a" "prefix xs2 (CHR '' '' # b)"
    have "xs2 = []" using p[of xs2] h(1,3) assms(2) by auto
    then show "sublist w a" using h by auto
  qed
  ultimately show ?thesis
    by (auto simp: sublist_append)
qed

lemma space_is_space: "is_space (CHR '' '')"
  by (simp add: is_space_def)

lemma keyword_in_texto_completo:
  assumes "w \<in> set (split palabras_clave)"
  shows "sublist (lower w) (texto_completo r) \<longleftrightarrow>
     sublist (lower w) (lower (titulo r)) \<or> sublist (lower w) (lower (descripcion r))
     \<or> sublist (lower w) (lower (m2 r)) \<or> sublist (lower w) (lower (dormitorios r))
     \<or> sublist (lower w) (lower (banos r))"
proof -
  have w: "w \<noteq> []" "list_all (\<lambda>c. \<not> is_space c) w" using split_words[OF assms] by simp_all
  have a: "lower w \<noteq> []" using w(1) by (simp add: lower_def)
  have "list_all (\<lambda>c. \<not> is_space c) (lower w)"
    using w(2) by (simp add: lower_def list_all_iff is_space_lower_char)
  then have b: "CHR '' '' \<notin> set (lower w)"
    using space_is_space by (auto simp: list_all_iff)
  have sp: "lower '' '' = '' ''" by (simp add: lower_def lower_char_def)
  show ?thesis
    unfolding texto_completo_def lower_append sp
    by (simp only: sublist_across_space[OF a b] disj_assoc)
qed

lemma strip_Nil_iff: "strip s = [] \<longleftrightarrow> list_all is_space s"
proof
  assume "strip s = []"
  then have "\<forall>x\<in>set (dropWhile is_space s). is_space x"
    by (simp add: strip_def)
  then have "dropWhile is_space s = []"
    using hd_dropWhile[of is_space s] hd_in_set[of "dropWhile is_space s"] by blast
  then show "list_all is_space s" by (simp add: list_all_iff)
next
  assume "list_all is_space s"
  then have d: "dropWhile is_space s = []" by (simp add: list_all_iff)
  show "strip s = []" unfolding strip_def d by simp
qed

section \<open>Keyword filter\<close>

text \<open>
  Claim C5. For every table and keyword string, \<open>_filter_by_keywords\<close> returns the table
  unchanged when the keyword string is empty or all whitespace; otherwise it splits the
  string on whitespace and retains, in their order, exactly the rows in which every
  keyword occurs, ignoring case, as a substring of the concatenation (with single spaces
  between the fields) of title, description, area, bedrooms and bathrooms. As a keyword
  holds no whitespace, this is the same as every keyword occurring, ignoring case, in one
  of these five fields.
\<close>

theorem filter_by_keywords_spec:
  "filter_by_keywords df palabras_clave =
     (if list_all is_space palabras_clave then df
      else filter
        (\<lambda>r. list_all
           (\<lambda>w. sublist (lower w)
              (lower (titulo r @ '' '' @ descripcion r @ '' '' @ m2 r @ '' ''
                      @ dormitorios r @ '' '' @ banos r)))
           (split palabras_clave)) df)
   \<and> filter_by_keywords df palabras_clave =
     (if list_all is_space palabras_clave then df
      else filter
        (\<lambda>r. list_all
           (\<lambda>w. sublist (lower w) (lower (titulo r)) \<or> sublist (lower w) (lower (descripcion r))
              \<or> sublist (lower w) (lower (m2 r)) \<or> sublist (lower w) (lower (dormitorios r))
              \<or> sublist (lower w) (lower (banos r)))
           (split palabras_clave)) df)"
proof -
  have "\<And>r. list_all (\<lambda>w. sublist (lower w) (texto_completo r)) (split palabras_clave) =
      list_all
           (\<lambda>w. sublist (lower w) (lower (titulo r)) \<or> sublist (lower w) (lower (descripcion r))
              \<or> sublist (lower w) (lower (m2 r)) \<or> sublist (lower w) (lower (dormitorios r))
              \<or> sublist (lower w) (lower (banos r)))
           (split palabras_clave)"
    unfolding list_all_iff using keyword_in_texto_completo by blast
  then show ?thesis
    unfolding filter_by_keywords_filter strip_Nil_iff
    by (simp add: texto_completo_def)
qed

theorem filter_by_keywords_spec_witness:
  "filter_by_keywords
     [\<lparr>titulo = ''Depa con Piscina'', precio = ''S/ 900'', m2 = ''80'', dormitorios = ''2'',
       banos = ''1'', descripcion = ''Cerca al parque'', link = ''u1'', imagen_url = ''''\<rparr>,
      \<lparr>titulo = ''Casa'', precio = ''S/ 900'', m2 = ''80'', dormitorios = ''2'',
       banos = ''1'', descripcion = ''con piscina'', link = ''u2'', imagen_url = ''''\<rparr>]
     '' PISCINA  depa ''
   = [\<lparr>titulo = ''Depa con Piscina'', precio = ''S/ 900'', m2 = ''80'', dormitorios = ''2'',
       banos = ''1'', descripcion = ''Cerca al parque'', link = ''u1'', imagen_url = ''''\<rparr>]
   \<and> filter_by_keywords [fila ''a'' '''' ''1'' '''' ''u1''] ''   '' = [fila ''a'' '''' ''1'' '''' ''u1'']"
proof -
  have a: "\<not> list_all is_space '' PISCINA  depa ''" "list_all is_space ''   ''"
    by code_simp+
  have b: "filter
        (\<lambda>r. list_all
           (\<lambda>w. sublist (lower w)
              (lower (titulo r @ '' '' @ descripcion r @ '' '' @ m2 r @ '' ''
                      @ dormitorios r @ '' '' @ banos r)))
           (split '' PISCINA  depa ''))
     [\<lparr>titulo = ''Depa con Piscina'', precio = ''S/ 900'', m2 = ''80'', dormitorios = ''2'',
       banos = ''1'', descripcion = ''Cerca al parque'', link = ''u1'', imagen_url = ''''\<rparr>,
      \<lparr>titulo = ''Casa'', precio = ''S/ 900'', m2 = ''80'', dormitorios = ''2'',
       banos = ''1'', descripcion = ''con piscina'', link = ''u2'', imagen_url = ''''\<rparr>]
   = [\<lparr>titulo = ''Depa con Piscina'', precio = ''S/ 900'', m2 = ''80'', dormitorios = ''2'',
       banos = ''1'', descripcion = ''Cerca al parque'', link = ''u1'', imagen_url = ''''\<rparr>]"
    by code_simp
  show ?thesis
    by (simp only: filter_by_keywords_spec[THEN conjunct1] a b if_True if_False)
qed

section \<open>Deduplication keeps first occurrences\<close>

lemma drop_duplicates_distinct:
  "distinct (map key (drop_duplicates key seen xs))
   \<and> set (map key (drop_duplicates key seen xs)) \<inter> seen = {}"
  by (induction xs arbitrary: seen) auto

lemma upt_Suc_shift: "[0..<Suc n] = 0 # map Suc [0..<n]"
  by (simp add: upt_conv_Cons map_Suc_upt del: upt_Suc)

lemma list_all_upt_Suc:
  "list_all Q [0..<Suc i] = (Q 0 \<and> list_all (\<lambda>j. Q (Suc j)) [0..<i])"
  unfolding upt_Suc_shift by (simp add: list.pred_map comp_def)

lemma drop_duplicates_positions:
  "drop_duplicates key seen xs =
     map (\<lambda>i. xs ! i)
       (filter (\<lambda>i. key (xs ! i) \<notin> seen \<and> list_all (\<lambda>j. key (xs ! j) \<noteq> key (xs ! i)) [0..<i])
          [0..<length xs])"
proof (induction xs arbitrary: seen)
  case Nil
  then show ?case by simp
next
  case (Cons x xs)
  let ?P = "\<lambda>seen ys i. key (ys ! i) \<notin> seen \<and> list_all (\<lambda>j. key (ys ! j) \<noteq> key (ys ! i)) [0..<i]"
  have len: "[0..<length (x # xs)] = 0 # map Suc [0..<length xs]"
    using upt_Suc_shift[of "length xs"] by simp
  have P0: "?P seen (x # xs) 0 = (key x \<notin> seen)" by simp
  have PS: "\<And>i. ?P seen (x # xs) (Suc i) =
      (key (xs ! i) \<notin> seen \<and> key x \<noteq> key (xs ! i)
       \<and> list_all (\<lambda>j. key (xs ! j) \<noteq> key (xs ! i)) [0..<i])"
    by (simp only: list_all_upt_Suc nth_Cons_Suc nth_Cons_0)
  have split: "filter (?P seen (x # xs)) [0..<length (x # xs)] =
      (if key x \<notin> seen then [0] else [])
      @ map Suc (filter (\<lambda>i. ?P seen (x # xs) (Suc i)) [0..<length xs])"
    unfolding len by (simp only: filter.simps P0 filter_map comp_def) simp
  show ?case
  proof (cases "key x \<in> seen")
    case True
    have "\<And>i. ?P seen (x # xs) (Suc i) = ?P seen xs i"
      unfolding PS using True by auto
    then show ?thesis
      unfolding split using True by (simp add: Cons.IH comp_def del: upt_Suc)
  next
    case False
    have "\<And>i. ?P seen (x # xs) (Suc i) = ?P (insert (key x) seen) xs i"
      unfolding PS by auto
    then show ?thesis
      unfolding split using False by (simp add: Cons.IH comp_def del: upt_Suc)
  qed
qed

lemma drop_duplicates_first_occurrences:
  "drop_duplicates key {} xs = first_occurrences key xs"
  by (simp add: drop_duplicates_positions first_occurrences_def)

section \<open>The Nestoria loop\<close>

lemma nestoria_row_link: "link (nestoria_row li a) = a_link a"
  by (simp add: nestoria_row_def Let_def)

lemma nestoria_row_precio: "precio (nestoria_row li a) = li_price_text li"
  by (simp add: nestoria_row_def Let_def)

lemma nestoria_item_cases:
  "nestoria_item price_min price_max seen li =
     (case li_a_tag li of
        None \<Rightarrow> None
      | Some a \<Rightarrow>
          if a_link a = [] \<or> a_link a \<in> seen then None
          else if max_str_digits < length (filter is_digit (li_price_text li)) then None
          else if early_price_exclusion price_min price_max (li_price_text li) then None
          else Some (nestoria_row li a))"
proof (cases "li_a_tag li")
  case None
  then show ?thesis by (simp add: nestoria_item_def)
next
  case (Some a)
  show ?thesis
  proof (cases "max_str_digits < length (filter is_digit (li_price_text li))")
    case True
    then have "parse_precio_con_moneda (li_price_text li) = Inl ValueError"
      by (simp add: parse_precio_con_moneda_total)
    then show ?thesis using Some True by (simp add: nestoria_item_def)
  next
    case False
    then obtain m v where p: "parse_precio_con_moneda (li_price_text li) = Inr (m, v)"
      by (simp add: parse_precio_con_moneda_total)
    have "(if (case (price_max, v) of
                       (Some pmax, Some x) \<Rightarrow> m = Some S \<and> x > pmax
                     | _ \<Rightarrow> False) then None
                 else if (case (price_min, v) of
                       (Some pmin, Some x) \<Rightarrow> m = Some S \<and> x < pmin
                     | _ \<Rightarrow> False) then None
                 else if m = Some USD \<and> (price_max \<noteq> None \<or> price_min \<noteq> None)
                   then None
                 else Some (nestoria_row li a))
      = (if early_price_exclusion price_min price_max (li_price_text li) then None
          else Some (nestoria_row li a))"
      unfolding early_price_exclusion_def p
      by (cases m; cases v; cases price_min; cases price_max)
         (auto split: moneda.splits)
    then show ?thesis
      using Some p False by (simp add: nestoria_item_def)
  qed
qed

lemma nestoria_item_seen:
  "nestoria_item price_min price_max seen li =
     (case nestoria_item price_min price_max {} li of
        None \<Rightarrow> None
      | Some row \<Rightarrow> if link row \<in> seen then None else Some row)"
  unfolding nestoria_item_cases
  by (cases "li_a_tag li") (simp_all add: nestoria_row_link)

lemma nestoria_loop_drop_duplicates:
  "nestoria_loop price_min price_max items seen results =
     results @ drop_duplicates link seen (List.map_filter (nestoria_item price_min price_max {}) items)"
proof (induction items arbitrary: seen results)
  case Nil
  then show ?case by simp
next
  case (Cons li items)
  show ?case
  proof (cases "nestoria_item price_min price_max {} li")
    case None
    then have "nestoria_item price_min price_max seen li = None"
      by (simp add: nestoria_item_seen[of _ _ seen])
    then show ?thesis using None Cons.IH by simp
  next
    case (Some row)
    then show ?thesis
      using Cons.IH by (simp add: nestoria_item_seen[of _ _ seen])
  qed
qed

lemma in_set_map_filter:
  "y \<in> set (List.map_filter f xs) \<longleftrightarrow> (\<exists>x \<in> set xs. f x = Some y)"
  by (induction xs) (auto split: option.splits)

lemma set_drop_duplicates_subset: "set (drop_duplicates key seen xs) \<subseteq> set xs"
  by (induction xs arbitrary: seen) auto

lemma nestoria_loop_rows:
  assumes "row \<in> set (nestoria_loop price_min price_max items {} [])"
  shows "\<exists>li \<in> set items. nestoria_item price_min price_max {} li = Some row"
proof -
  have "row \<in> set (List.map_filter (nestoria_item price_min price_max {}) items)"
    using assms set_drop_duplicates_subset[of link "{}"]
    unfolding nestoria_loop_drop_duplicates by auto
  then show ?thesis by (simp only: in_set_map_filter)
qed

lemma scrape_nestoria_cases:
  "scrape_nestoria get_page_content zona d b price_min price_max = []
   \<or> (\<exists>page. scrape_nestoria get_page_content zona d b price_min price_max =
         nestoria_loop price_min price_max (nestoria_items page) {} [])"
proof -
  have "(case x of None \<Rightarrow> [] | Some page \<Rightarrow> nestoria_loop price_min price_max (nestoria_items page) {} []) = []
       \<or> (\<exists>page. (case x of None \<Rightarrow> [] | Some page \<Rightarrow> nestoria_loop price_min price_max (nestoria_items page) {} []) =
         nestoria_loop price_min price_max (nestoria_items page) {} [])" for x :: "soup option"
    by (cases x) auto
  then show ?thesis unfolding scrape_nestoria_def Let_def by blast
qed

section \<open>Nestoria: early price exclusion, links, zone slug\<close>

text \<open>
  Claim C7. An item of the Nestoria page is dropped exactly when it has no anchor, its
  link is empty or already emitted, its price text holds more than 4300 digits (\<open>int\<close>
  raises and the handler of the loop skips the item), or the early price exclusion
  applies: the parsed price is in local currency and below a given \<open>price_min\<close> or above a
  given \<open>price_max\<close>, or it is in foreign currency and a bound was given. Without a price
  bound the exclusion never applies, and no row the extractor returns has an excluded
  price.
\<close>

theorem nestoria_early_price_exclusion:
  "(nestoria_item price_min price_max seen li = None \<longleftrightarrow>
      (case li_a_tag li of None \<Rightarrow> True | Some a \<Rightarrow> a_link a = [] \<or> a_link a \<in> seen)
      \<or> 4300 < length (filter is_digit (li_price_text li))
      \<or> early_price_exclusion price_min price_max (li_price_text li))
   \<and> \<not> early_price_exclusion None None price_text
   \<and> list_all (\<lambda>row. \<not> early_price_exclusion price_min price_max (precio row))
        (scrape_nestoria get_page_content zona d b price_min price_max)"
proof (intro conjI)
  show "nestoria_item price_min price_max seen li = None \<longleftrightarrow>
      (case li_a_tag li of None \<Rightarrow> True | Some a \<Rightarrow> a_link a = [] \<or> a_link a \<in> seen)
      \<or> 4300 < length (filter is_digit (li_price_text li))
      \<or> early_price_exclusion price_min price_max (li_price_text li)"
    unfolding nestoria_item_cases max_str_digits_def by (cases "li_a_tag li") auto
  show "\<not> early_price_exclusion None None price_text"
    by (simp add: early_price_exclusion_def parse_precio_con_moneda_total split: moneda.splits)
  have item: "\<not> early_price_exclusion price_min price_max (precio row)"
    if "nestoria_item price_min price_max {} li' = Some row" for li' row
    using that unfolding nestoria_item_cases
    by (cases "li_a_tag li'") (auto simp: nestoria_row_precio split: if_splits)
  show "list_all (\<lambda>row. \<not> early_price_exclusion price_min price_max (precio row))
        (scrape_nestoria get_page_content zona d b price_min price_max)"
  proof -
    have "\<not> early_price_exclusion price_min price_max (precio row)"
      if "row \<in> set (nestoria_loop price_min price_max items {} [])" for row items
      using nestoria_loop_rows[OF that] item by blast
    then show ?thesis
      using scrape_nestoria_cases[of get_page_content zona d b price_min price_max]
      unfolding list_all_iff by (metis empty_iff empty_set)
  qed
qed

theorem nestoria_early_price_exclusion_witness:
  "nestoria_item (Some 800) (Some 1500) {} (li_of ''/a'' ''S/ 2,000'') = None
   \<and> nestoria_item (Some 800) None {} (li_of ''/a'' ''S/ 799'') = None
   \<and> nestoria_item None (Some 1500) {} (li_of ''/a'' ''$ 900'') = None
   \<and> nestoria_item None None {} (li_of ''/a'' ''$ 900'') \<noteq> None
   \<and> nestoria_item (Some 800) (Some 1500) {} (li_of ''/a'' ''S/ 1,500'') \<noteq> None"
proof -
  have a: "li_a_tag (li_of ''/a'' p) =
      Some \<lparr>attr_data_href = None, attr_href = Some ''/a'', a_text = ''Departamento''\<rparr>" for p
    by (simp add: li_a_tag_def li_of_def or_else_def)
  have l: "a_link \<lparr>attr_data_href = None, attr_href = Some ''/a'', a_text = ''Departamento''\<rparr>
      = ''https://www.nestoria.pe/a''"
    by (simp add: a_link_def or_str_def)
  have e: "early_price_exclusion (Some 800) (Some 1500) (li_price_text (li_of ''/a'' ''S/ 2,000''))"
    "early_price_exclusion (Some 800) None (li_price_text (li_of ''/a'' ''S/ 799''))"
    "early_price_exclusion None (Some 1500) (li_price_text (li_of ''/a'' ''$ 900''))"
    "\<not> early_price_exclusion None None (li_price_text (li_of ''/a'' ''$ 900''))"
    "\<not> early_price_exclusion (Some 800) (Some 1500) (li_price_text (li_of ''/a'' ''S/ 1,500''))"
    by code_simp+
  have d: "\<not> 4300 < length (filter is_digit (li_price_text (li_of ''/a'' ''$ 900'')))"
    "\<not> 4300 < length (filter is_digit (li_price_text (li_of ''/a'' ''S/ 1,500'')))"
    by code_simp+
  show ?thesis
    by (simp add: nestoria_early_price_exclusion[THEN conjunct1] a l e d)
qed

text \<open>
  Claim C10. The links of the rows returned by \<open>scrape_nestoria\<close> are pairwise distinct:
  the loop returns, of the items that pass the other checks, those whose link occurs on no
  earlier such item, in page order.
\<close>

theorem scrape_nestoria_distinct_links:
  "distinct (map link (scrape_nestoria get_page_content zona d b price_min price_max))
   \<and> nestoria_loop price_min price_max items {} [] =
       first_occurrences link (List.map_filter (nestoria_item price_min price_max {}) items)"
proof
  have "distinct (map link (nestoria_loop price_min price_max its {} []))" for its
    unfolding nestoria_loop_drop_duplicates using drop_duplicates_distinct[of link "{}"] by simp
  then show "distinct (map link (scrape_nestoria get_page_content zona d b price_min price_max))"
    using scrape_nestoria_cases[of get_page_content zona d b price_min price_max]
    by (metis distinct.simps(1) list.simps(8))
  show "nestoria_loop price_min price_max items {} [] =
       first_occurrences link (List.map_filter (nestoria_item price_min price_max {}) items)"
    unfolding nestoria_loop_drop_duplicates drop_duplicates_first_occurrences by simp
qed

theorem scrape_nestoria_distinct_links_witness:
  "map link (scrape_nestoria
       (\<lambda>url. Some (page_of [li_of ''/a'' ''S/ 900'', li_of ''/b'' ''S/ 950'', li_of ''/a'' ''S/ 990'']))
       ''comas'' ''0'' ''0'' None None)
     = [''https://www.nestoria.pe/a'', ''https://www.nestoria.pe/b'']
   \<and> map precio (scrape_nestoria
       (\<lambda>url. Some (page_of [li_of ''/a'' ''S/ 900'', li_of ''/b'' ''S/ 950'', li_of ''/a'' ''S/ 990'']))
       ''comas'' ''0'' ''0'' None None)
     = [''S/ 900'', ''S/ 950'']
   \<and> distinct (map link (scrape_nestoria
       (\<lambda>url. Some (page_of [li_of ''/a'' ''S/ 900'', li_of ''/b'' ''S/ 950'', li_of ''/a'' ''S/ 990'']))
       ''comas'' ''0'' ''0'' None None))"
proof (intro conjI)
  show "map link (scrape_nestoria
       (\<lambda>url. Some (page_of [li_of ''/a'' ''S/ 900'', li_of ''/b'' ''S/ 950'', li_of ''/a'' ''S/ 990'']))
       ''comas'' ''0'' ''0'' None None)
     = [''https://www.nestoria.pe/a'', ''https://www.nestoria.pe/b'']"
    by code_simp
  show "map precio (scrape_nestoria
       (\<lambda>url. Some (page_of [li_of ''/a'' ''S/ 900'', li_of ''/b'' ''S/ 950'', li_of ''/a'' ''S/ 990'']))
       ''comas'' ''0'' ''0'' None None)
     = [''S/ 900'', ''S/ 950'']"
    by code_simp
  show "distinct (map link (scrape_nestoria
       (\<lambda>url. Some (page_of [li_of ''/a'' ''S/ 900'', li_of ''/b'' ''S/ 950'', li_of ''/a'' ''S/ 990'']))
       ''comas'' ''0'' ''0'' None None))"
    by (rule scrape_nestoria_distinct_links[THEN conjunct1])
qed

text \<open>
  Claim C8, at the inputs where the code departs from it. The zones \<open>la molina\<close> and
  \<open>la victoria\<close> are on the exception list, yet their slugs carry no \<open>lima_\<close> prefix: the
  input is hyphenated before it is looked up in the list, whose entries keep their space.
  The one-word zones of the list receive the prefix.
\<close>

theorem build_zona_slug_nestoria_two_word_exceptions:
  "''la molina'' \<in> set EXCEPCIONES
   \<and> build_zona_slug_nestoria ''la molina'' = ''la-molina''
   \<and> ''la victoria'' \<in> set EXCEPCIONES
   \<and> build_zona_slug_nestoria ''La Victoria'' = ''la-victoria''
   \<and> build_zona_slug_nestoria '' Miraflores '' = ''lima_miraflores''
   \<and> build_zona_slug_nestoria ''san isidro'' = ''san-isidro''"
  by code_simp

section \<open>The aggregator loop\<close>

lemma source_frame_func:
  "func q = func' q \<Longrightarrow> source_frame pd q name func = source_frame pd q name func'"
  by (simp add: source_frame_def)

lemma source_frame_Raises:
  "func q = Raises \<Longrightarrow> source_frame pd q name func = Inr []"
  by (simp add: source_frame_def filter_df_strict_def filter_by_keywords_def)

lemma source_frame_empty:
  "func q = Returns_frame [] \<Longrightarrow> source_frame pd q name func = Inr []"
  by (simp add: source_frame_def filter_df_strict_def filter_by_keywords_def)

lemma source_frame_exact:
  assumes "exact_on_doubles pd" and "source_exact func q" and "query_exact q"
  shows "\<exists>rows. source_frame pd q name func = Inr rows"
proof -
  define df where "df = map normalize_row
     (case func q of Raises \<Rightarrow> [] | Returns_no_frame \<Rightarrow> [] | Returns_frame rs \<Rightarrow> rs)"
  have "table_exact df"
    using assms(2) unfolding df_def source_exact_def
    by (cases "func q") (simp_all add: table_exact_def)
  then have "filter_df_strict pd df (Some (q_dormitorios q)) (Some (q_banos q))
                (q_price_min q) (q_price_max q)
      = Inr (filter (strict_keep (Some (q_dormitorios q)) (Some (q_banos q))
                (q_price_min q) (q_price_max q)) df)"
    using assms(1,3) unfolding query_exact_def by (intro filter_df_strict_filter) simp_all
  then show ?thesis
    unfolding source_frame_def Let_def df_def[symmetric] by simp
qed

lemma length_stamp: "length (stamp w name df) = length df"
  by (simp add: stamp_def)

lemma stamp_Nil_iff: "stamp w name df = [] \<longleftrightarrow> df = []"
  using length_stamp[of w name df] by (metis length_0_conv)

lemma stamp_Nil: "stamp w name [] = []"
  by (simp add: stamp_def)

lemma run_loop_frames:
  assumes "list_all (\<lambda>(name, func). \<exists>rows. source_frame pd q name func = Inr rows) srcs"
  shows "run_loop pd w q srcs frames =
     Inr (frames @ filter (\<lambda>f. f \<noteq> [])
            (map (\<lambda>(name, func). stamp w name (projr (source_frame pd q name func))) srcs))"
  using assms
proof (induction srcs arbitrary: frames)
  case Nil
  then show ?case by simp
next
  case (Cons src srcs)
  obtain name func where src: "src = (name, func)" by (cases src)
  obtain rows where r: "source_frame pd q name func = Inr rows"
    using Cons.prems src by auto
  have rest: "list_all (\<lambda>(name, func). \<exists>rows. source_frame pd q name func = Inr rows) srcs"
    using Cons.prems by simp
  show ?case
    unfolding src using r by (simp add: Cons.IH[OF rest] stamp_Nil_iff)
qed

lemma concat_filter_nonempty: "concat (filter (\<lambda>f. f \<noteq> []) xss) = concat xss"
  by (induction xss) auto

lemma run_scrapers_eq:
  assumes "list_all (\<lambda>(name, func). \<exists>rows. source_frame pd q name func = Inr rows) (SCRAPERS w)"
  shows "run_scrapers pd w q =
     Inr (drop_duplicates (\<lambda>r. (link r, titulo r)) {}
            (filter (\<lambda>r. link r \<noteq> '''')
               (filter (\<lambda>r. \<not> prefix ''#'' (link r))
                  (concat (map (\<lambda>(name, func). stamp w name (projr (source_frame pd q name func)))
                             (SCRAPERS w))))))"
proof -
  let ?fs = "filter (\<lambda>f. f \<noteq> [])
            (map (\<lambda>(name, func). stamp w name (projr (source_frame pd q name func))) (SCRAPERS w))"
  have c: "concat ?fs = concat (map (\<lambda>(name, func). stamp w name (projr (source_frame pd q name func)))
                             (SCRAPERS w))"
    by (rule concat_filter_nonempty)
  have l: "run_loop pd w q (SCRAPERS w) [] = Inr ?fs"
    by (simp add: run_loop_frames[OF assms])
  show ?thesis
  proof (cases "?fs = []")
    case True
    then have "concat ?fs = []" by simp
    then show ?thesis
      unfolding run_scrapers_def l c[symmetric] using True by simp
  next
    case False
    then show ?thesis
      unfolding run_scrapers_def l c[symmetric] by (simp add: Let_def)
  qed
qed

lemma run_scrapers_frames:
  assumes "source_frame pd q ''nestoria'' (site_nestoria w) = Inr n"
    and "source_frame pd q ''infocasas'' (site_infocasas w) = Inr i"
    and "source_frame pd q ''properati'' (site_properati w) = Inr p"
    and "source_frame pd q ''doomos'' (site_doomos w) = Inr d"
  shows "run_scrapers pd w q =
         Inr (first_occurrences (\<lambda>r. (link r, titulo r))
                (filter (\<lambda>r. link r \<noteq> '''' \<and> \<not> prefix ''#'' (link r))
                   (stamp w ''nestoria'' n @ stamp w ''infocasas'' i
                    @ stamp w ''properati'' p @ stamp w ''doomos'' d)))"
proof -
  have "list_all (\<lambda>(name, func). \<exists>rows. source_frame pd q name func = Inr rows) (SCRAPERS w)"
    using assms by (simp add: SCRAPERS_def)
  then show ?thesis
    unfolding run_scrapers_eq[OF \<open>list_all _ (SCRAPERS w)\<close>] drop_duplicates_first_occurrences
    by (simp add: SCRAPERS_def assms conj_commute)
qed

lemma first_occurrences_distinct:
  "distinct (map key (first_occurrences key xs))"
  using drop_duplicates_distinct[of key "{}" xs]
  unfolding drop_duplicates_first_occurrences by simp

lemma stamp_site_update:
  "stamp (w\<lparr>site_nestoria := f\<rparr>) name df = stamp w name df"
  "stamp (w\<lparr>site_infocasas := f\<rparr>) name df = stamp w name df"
  "stamp (w\<lparr>site_properati := f\<rparr>) name df = stamp w name df"
  "stamp (w\<lparr>site_doomos := f\<rparr>) name df = stamp w name df"
  by (simp_all add: stamp_def)

lemma run_loop_stamp_cong:
  "(\<And>name df. stamp w' name df = stamp w name df)
     \<Longrightarrow> run_loop pd w' q srcs frames = run_loop pd w q srcs frames"
proof (induction srcs arbitrary: frames)
  case Nil
  then show ?case by simp
next
  case (Cons src srcs)
  obtain name func where src: "src = (name, func)" by (cases src)
  show ?case
    unfolding src using Cons.prems
    by (cases "source_frame pd q name func") (simp_all add: Cons.IH[OF Cons.prems])
qed

lemma run_loop_source_cong:
  "source_frame pd q name func = source_frame pd q name func'
     \<Longrightarrow> run_loop pd w q (pre @ (name, func) # rest) frames
         = run_loop pd w q (pre @ (name, func') # rest) frames"
proof (induction pre arbitrary: frames)
  case Nil
  then show ?case by simp
next
  case (Cons src pre)
  obtain name' func'' where src: "src = (name', func'')" by (cases src)
  show ?case
    unfolding src using Cons.IH[OF Cons.prems]
    by (cases "source_frame pd q name' func''") simp_all
qed

lemma source_frame_Raises_empty:
  "func q = Raises \<Longrightarrow>
     source_frame pd q name func = source_frame pd q name (\<lambda>q. Returns_frame [])"
  by (simp add: source_frame_Raises source_frame_empty)

lemma run_scrapers_loop_cong:
  "run_loop pd w' q (SCRAPERS w') [] = run_loop pd w q (SCRAPERS w) []
     \<Longrightarrow> run_scrapers pd w' q = run_scrapers pd w q"
  by (simp add: run_scrapers_def)

lemma run_scrapers_Raises_empty:
  "site_nestoria w q = Raises
     \<Longrightarrow> run_scrapers pd w q = run_scrapers pd (w\<lparr>site_nestoria := \<lambda>q. Returns_frame []\<rparr>) q"
  "site_infocasas w q = Raises
     \<Longrightarrow> run_scrapers pd w q = run_scrapers pd (w\<lparr>site_infocasas := \<lambda>q. Returns_frame []\<rparr>) q"
  "site_properati w q = Raises
     \<Longrightarrow> run_scrapers pd w q = run_scrapers pd (w\<lparr>site_properati := \<lambda>q. Returns_frame []\<rparr>) q"
  "site_doomos w q = Raises
     \<Longrightarrow> run_scrapers pd w q = run_scrapers pd (w\<lparr>site_doomos := \<lambda>q. Returns_frame []\<rparr>) q"
proof -
  show "run_scrapers pd w q = run_scrapers pd (w\<lparr>site_nestoria := \<lambda>q. Returns_frame []\<rparr>) q"
    if "site_nestoria w q = Raises"
  proof -
    let ?w = "w\<lparr>site_nestoria := \<lambda>q. Returns_frame []\<rparr>"
    have a: "run_loop pd ?w q (SCRAPERS ?w) [] = run_loop pd w q (SCRAPERS ?w) []"
      by (rule run_loop_stamp_cong) (rule stamp_site_update)
    have b: "SCRAPERS ?w = []
        @ (''nestoria'', \<lambda>q. Returns_frame []) # [(''infocasas'', site_infocasas w), (''properati'', site_properati w), (''doomos'', site_doomos w)]"
      by (simp add: SCRAPERS_def)
    have c: "SCRAPERS w = []
        @ (''nestoria'', site_nestoria w) # [(''infocasas'', site_infocasas w), (''properati'', site_properati w), (''doomos'', site_doomos w)]"
      by (simp add: SCRAPERS_def)
    have "run_loop pd w q (SCRAPERS w) [] = run_loop pd w q (SCRAPERS ?w) []"
      unfolding b c
      by (rule run_loop_source_cong) (rule source_frame_Raises_empty, rule that)
    then have "run_loop pd ?w q (SCRAPERS ?w) [] = run_loop pd w q (SCRAPERS w) []"
      using a by simp
    then show ?thesis by (rule run_scrapers_loop_cong[symmetric])
  qed
  show "run_scrapers pd w q = run_scrapers pd (w\<lparr>site_infocasas := \<lambda>q. Returns_frame []\<rparr>) q"
    if "site_infocasas w q = Raises"
  proof -
    let ?w = "w\<lparr>site_infocasas := \<lambda>q. Returns_frame []\<rparr>"
    have a: "run_loop pd ?w q (SCRAPERS ?w) [] = run_loop pd w q (SCRAPERS ?w) []"
      by (rule run_loop_stamp_cong) (rule stamp_site_update)
    have b: "SCRAPERS ?w = [(''nestoria'', site_nestoria w)]
        @ (''infocasas'', \<lambda>q. Returns_frame []) # [(''properati'', site_properati w), (''doomos'', site_doomos w)]"
      by (simp add: SCRAPERS_def)
    have c: "SCRAPERS w = [(''nestoria'', site_nestoria w)]
        @ (''infocasas'', site_infocasas w) # [(''properati'', site_properati w), (''doomos'', site_doomos w)]"
      by (simp add: SCRAPERS_def)
    have "run_loop pd w q (SCRAPERS w) [] = run_loop pd w q (SCRAPERS ?w) []"
      unfolding b c
      by (rule run_loop_source_cong) (rule source_frame_Raises_empty, rule that)
    then have "run_loop pd ?w q (SCRAPERS ?w) [] = run_loop pd w q (SCRAPERS w) []"
      using a by simp
    then show ?thesis by (rule run_scrapers_loop_cong[symmetric])
  qed
  show "run_scrapers pd w q = run_scrapers pd (w\<lparr>site_properati := \<lambda>q. Returns_frame []\<rparr>) q"
    if "site_properati w q = Raises"
  proof -
    let ?w = "w\<lparr>site_properati := \<lambda>q. Returns_frame []\<rparr>"
    have a: "run_loop pd ?w q (SCRAPERS ?w) [] = run_loop pd w q (SCRAPERS ?w) []"
      by (rule run_loop_stamp_cong) (rule stamp_site_update)
    have b: "SCRAPERS ?w = [(''nestoria'', site_nestoria w), (''infocasas'', site_infocasas w)]
        @ (''properati'', \<lambda>q. Returns_frame []) # [(''doomos'', site_doomos w)]"
      by (simp add: SCRAPERS_def)
    have c: "SCRAPERS w = [(''nestoria'', site_nestoria w), (''infocasas'', site_infocasas w)]
        @ (''properati'', site_properati w) # [(''doomos'', site_doomos w)]"
      by (simp add: SCRAPERS_def)
    have "run_loop pd w q (SCRAPERS w) [] = run_loop pd w q (SCRAPERS ?w) []"
      unfolding b c
      by (rule run_loop_source_cong) (rule source_frame_Raises_empty, rule that)
    then have "run_loop pd ?w q (SCRAPERS ?w) [] = run_loop pd w q (SCRAPERS w) []"
      using a by simp
    then show ?thesis by (rule run_scrapers_loop_cong[symmetric])
  qed
  show "run_scrapers pd w q = run_scrapers pd (w\<lparr>site_doomos := \<lambda>q. Returns_frame []\<rparr>) q"
    if "site_doomos w q = Raises"
  proof -
    let ?w = "w\<lparr>site_doomos := \<lambda>q. Returns_frame []\<rparr>"
    have a: "run_loop pd ?w q (SCRAPERS ?w) [] = run_loop pd w q (SCRAPERS ?w) []"
      by (rule run_loop_stamp_cong) (rule stamp_site_update)
    have b: "SCRAPERS ?w = [(''nestoria'', site_nestoria w), (''infocasas'', site_infocasas w), (''properati'', site_properati w)]
        @ (''doomos'', \<lambda>q. Returns_frame []) # []"
      by (simp add: SCRAPERS_def)
    have c: "SCRAPERS w = [(''nestoria'', site_nestoria w), (''infocasas'', site_infocasas w), (''properati'', site_properati w)]
        @ (''doomos'', site_doomos w) # []"
      by (simp add: SCRAPERS_def)
    have "run_loop pd w q (SCRAPERS w) [] = run_loop pd w q (SCRAPERS ?w) []"
      unfolding b c
      by (rule run_loop_source_cong) (rule source_frame_Raises_empty, rule that)
    then have "run_loop pd ?w q (SCRAPERS ?w) [] = run_loop pd w q (SCRAPERS w) []"
      using a by simp
    then show ?thesis by (rule run_scrapers_loop_cong[symmetric])
  qed
qed

lemma run_scrapers_first_raises:
  "source_frame pd q ''nestoria'' (site_nestoria w) = Inl e \<Longrightarrow> run_scrapers pd w q = Inl e"
  by (simp add: run_scrapers_def SCRAPERS_def)

section \<open>Aggregation\<close>

text \<open>
  Claim C2. When the processing of each source returns its result (the source's rows after
  normalisation and filtering; a source that raised gives none), the table of the run is
  obtained from the per-source results, tagged with their source, by concatenating them in
  the order nestoria, infocasas, properati, doomos, dropping the rows whose link is empty
  or begins with \<open>#\<close>, and keeping of the rest the rows whose pair (link, title) occurs at
  no earlier position; so the pairs of the table are pairwise distinct and a pair present
  in several sources comes from the earliest one.
\<close>

theorem run_scrapers_concat_dedup:
  assumes "source_frame pd q ''nestoria'' (site_nestoria w) = Inr n"
    and "source_frame pd q ''infocasas'' (site_infocasas w) = Inr i"
    and "source_frame pd q ''properati'' (site_properati w) = Inr p"
    and "source_frame pd q ''doomos'' (site_doomos w) = Inr d"
  shows "run_scrapers pd w q =
         Inr (first_occurrences (\<lambda>r. (link r, titulo r))
                (filter (\<lambda>r. link r \<noteq> '''' \<and> \<not> prefix ''#'' (link r))
                   (stamp w ''nestoria'' n @ stamp w ''infocasas'' i
                    @ stamp w ''properati'' p @ stamp w ''doomos'' d)))
     \<and> distinct (map (\<lambda>r. (link r, titulo r))
         (first_occurrences (\<lambda>r. (link r, titulo r))
                (filter (\<lambda>r. link r \<noteq> '''' \<and> \<not> prefix ''#'' (link r))
                   (stamp w ''nestoria'' n @ stamp w ''infocasas'' i
                    @ stamp w ''properati'' p @ stamp w ''doomos'' d))))"
  using run_scrapers_frames[OF assms] first_occurrences_distinct by blast

theorem run_scrapers_concat_dedup_witness:
  "source_frame pandas_float64 (query_of ''0'' ''0'' None None '''') ''nestoria''
       (\<lambda>q. Returns_frame [fila ''Depa'' ''S/ 900'' ''2'' ''1'' ''http://x/1''])
     = Inr [fila ''Depa'' ''S/ 900'' ''2'' ''1'' ''http://x/1'']
   \<and> source_frame pandas_float64 (query_of ''0'' ''0'' None None '''') ''infocasas''
       (\<lambda>q. Returns_frame [fila ''Depa'' ''S/ 900'' ''2'' ''1'' ''http://x/1'',
                             fila ''Otro'' ''S/ 950'' ''2'' ''1'' ''#''])
     = Inr [fila ''Depa'' ''S/ 900'' ''2'' ''1'' ''http://x/1'',
            fila ''Otro'' ''S/ 950'' ''2'' ''1'' ''#'']
   \<and> source_frame pandas_float64 (query_of ''0'' ''0'' None None '''') ''properati'' (\<lambda>q. Raises)
     = Inr []
   \<and> source_frame pandas_float64 (query_of ''0'' ''0'' None None '''') ''doomos''
       (\<lambda>q. Returns_frame [fila ''Casa'' ''S/ 800'' ''2'' ''1'' '''',
                             fila ''Casa'' ''S/ 800'' ''2'' ''1'' ''http://x/2''])
     = Inr [fila ''Casa'' ''S/ 800'' ''2'' ''1'' '''',
            fila ''Casa'' ''S/ 800'' ''2'' ''1'' ''http://x/2'']
   \<and> run_scrapers pandas_float64
     (world_of (Returns_frame [fila ''Depa'' ''S/ 900'' ''2'' ''1'' ''http://x/1''])
               (Returns_frame [fila ''Depa'' ''S/ 900'' ''2'' ''1'' ''http://x/1'',
                               fila ''Otro'' ''S/ 950'' ''2'' ''1'' ''#''])
               Raises
               (Returns_frame [fila ''Casa'' ''S/ 800'' ''2'' ''1'' '''',
                               fila ''Casa'' ''S/ 800'' ''2'' ''1'' ''http://x/2'']))
     (query_of ''0'' ''0'' None None '''')
   = Inr [\<lparr>titulo = ''Depa'', precio = ''S/ 900'', m2 = '''', dormitorios = ''2'', banos = ''1'',
           descripcion = '''', link = ''http://x/1'', imagen_url = '''',
           fuente = ''nestoria'', scraped_at = ''2025-01-01T00:00:00'', id_str = ''nestoria-0''\<rparr>,
          \<lparr>titulo = ''Casa'', precio = ''S/ 800'', m2 = '''', dormitorios = ''2'', banos = ''1'',
           descripcion = '''', link = ''http://x/2'', imagen_url = '''',
           fuente = ''doomos'', scraped_at = ''2025-01-01T00:00:00'', id_str = ''doomos-1''\<rparr>]"
proof -
  let ?n = "[fila ''Depa'' ''S/ 900'' ''2'' ''1'' ''http://x/1'']"
  let ?i = "[fila ''Depa'' ''S/ 900'' ''2'' ''1'' ''http://x/1'',
             fila ''Otro'' ''S/ 950'' ''2'' ''1'' ''#'']"
  let ?d = "[fila ''Casa'' ''S/ 800'' ''2'' ''1'' '''',
             fila ''Casa'' ''S/ 800'' ''2'' ''1'' ''http://x/2'']"
  let ?w = "world_of (Returns_frame ?n) (Returns_frame ?i) Raises (Returns_frame ?d)"
  let ?q = "query_of ''0'' ''0'' None None ''''"
  have n: "source_frame pandas_float64 ?q ''nestoria'' (\<lambda>q. Returns_frame ?n) = Inr ?n"
    by code_simp
  have i: "source_frame pandas_float64 ?q ''infocasas'' (\<lambda>q. Returns_frame ?i) = Inr ?i"
    by code_simp
  have p: "source_frame pandas_float64 ?q ''properati'' (\<lambda>q. Raises) = Inr []"
    by code_simp
  have d: "source_frame pandas_float64 ?q ''doomos'' (\<lambda>q. Returns_frame ?d) = Inr ?d"
    by code_simp
  have s: "site_nestoria ?w = (\<lambda>q. Returns_frame ?n)" "site_infocasas ?w = (\<lambda>q. Returns_frame ?i)"
    "site_properati ?w = (\<lambda>q. Raises)" "site_doomos ?w = (\<lambda>q. Returns_frame ?d)"
    by (simp_all add: world_of_def)
  have r: "run_scrapers pandas_float64 ?w ?q =
         Inr (first_occurrences (\<lambda>r. (link r, titulo r))
                (filter (\<lambda>r. link r \<noteq> '''' \<and> \<not> prefix ''#'' (link r))
                   (stamp ?w ''nestoria'' ?n @ stamp ?w ''infocasas'' ?i
                    @ stamp ?w ''properati'' [] @ stamp ?w ''doomos'' ?d)))"
    using run_scrapers_concat_dedup[of pandas_float64 ?q ?w ?n ?i "[]" ?d]
    unfolding s using n i p d by blast
  have "run_scrapers pandas_float64 ?w ?q
   = Inr [\<lparr>titulo = ''Depa'', precio = ''S/ 900'', m2 = '''', dormitorios = ''2'', banos = ''1'',
           descripcion = '''', link = ''http://x/1'', imagen_url = '''',
           fuente = ''nestoria'', scraped_at = ''2025-01-01T00:00:00'', id_str = ''nestoria-0''\<rparr>,
          \<lparr>titulo = ''Casa'', precio = ''S/ 800'', m2 = '''', dormitorios = ''2'', banos = ''1'',
           descripcion = '''', link = ''http://x/2'', imagen_url = '''',
           fuente = ''doomos'', scraped_at = ''2025-01-01T00:00:00'', id_str = ''doomos-1''\<rparr>]"
    unfolding r by code_simp
  then show ?thesis using n i p d by (intro conjI)
qed

text \<open>
  Claim C3, as the code has it. When all four extractors raise, the run returns the empty
  table. An extractor that raises counts as one that returned an empty table: the run does
  what it does when that extractor returns no rows. Whichever extractors raise, the
  remaining sources are processed: when the processing of every source that did not raise
  returns, the table of the run is built from the results of exactly these sources, in
  their order. The run returns normally when the library holds integers of magnitude up to
  \<open>2^53\<close> exactly and the cells of the returned tables, the requests and the bounds stay
  within that range.
\<close>

theorem run_scrapers_source_failures:
  "(site_nestoria w q = Raises \<and> site_infocasas w q = Raises
      \<and> site_properati w q = Raises \<and> site_doomos w q = Raises
      \<longrightarrow> run_scrapers pd w q = Inr [])
   \<and> (site_nestoria w q = Raises
      \<longrightarrow> run_scrapers pd w q = run_scrapers pd (w\<lparr>site_nestoria := \<lambda>q. Returns_frame []\<rparr>) q)
   \<and> (site_infocasas w q = Raises
      \<longrightarrow> run_scrapers pd w q = run_scrapers pd (w\<lparr>site_infocasas := \<lambda>q. Returns_frame []\<rparr>) q)
   \<and> (site_properati w q = Raises
      \<longrightarrow> run_scrapers pd w q = run_scrapers pd (w\<lparr>site_properati := \<lambda>q. Returns_frame []\<rparr>) q)
   \<and> (site_doomos w q = Raises
      \<longrightarrow> run_scrapers pd w q = run_scrapers pd (w\<lparr>site_doomos := \<lambda>q. Returns_frame []\<rparr>) q)
   \<and> ((if site_nestoria w q = Raises then n = []
        else source_frame pd q ''nestoria'' (site_nestoria w) = Inr n)
       \<and> (if site_infocasas w q = Raises then i = []
        else source_frame pd q ''infocasas'' (site_infocasas w) = Inr i)
       \<and> (if site_properati w q = Raises then p = []
        else source_frame pd q ''properati'' (site_properati w) = Inr p)
       \<and> (if site_doomos w q = Raises then d = []
        else source_frame pd q ''doomos'' (site_doomos w) = Inr d)
      \<longrightarrow> run_scrapers pd w q =
           Inr (first_occurrences (\<lambda>r. (link r, titulo r))
                  (filter (\<lambda>r. link r \<noteq> '''' \<and> \<not> prefix ''#'' (link r))
                     (stamp w ''nestoria'' n @ stamp w ''infocasas'' i
                      @ stamp w ''properati'' p @ stamp w ''doomos'' d))))
   \<and> (exact_on_doubles pd \<and> query_exact q
       \<and> source_exact (site_nestoria w) q \<and> source_exact (site_infocasas w) q
       \<and> source_exact (site_properati w) q \<and> source_exact (site_doomos w) q
      \<longrightarrow> (\<exists>out. run_scrapers pd w q = Inr out))"
proof (intro conjI impI)
  show "run_scrapers pd w q = Inr []"
    if "site_nestoria w q = Raises \<and> site_infocasas w q = Raises
      \<and> site_properati w q = Raises \<and> site_doomos w q = Raises"
  proof -
    have "run_scrapers pd w q =
         Inr (first_occurrences (\<lambda>r. (link r, titulo r))
                (filter (\<lambda>r. link r \<noteq> '''' \<and> \<not> prefix ''#'' (link r))
                   (stamp w ''nestoria'' [] @ stamp w ''infocasas'' []
                    @ stamp w ''properati'' [] @ stamp w ''doomos'' [])))"
      using that by (intro run_scrapers_frames source_frame_Raises) simp_all
    then show ?thesis by (simp add: stamp_Nil first_occurrences_def)
  qed
  show "run_scrapers pd w q = run_scrapers pd (w\<lparr>site_nestoria := \<lambda>q. Returns_frame []\<rparr>) q"
    if "site_nestoria w q = Raises"
    using that by (rule run_scrapers_Raises_empty)
  show "run_scrapers pd w q = run_scrapers pd (w\<lparr>site_infocasas := \<lambda>q. Returns_frame []\<rparr>) q"
    if "site_infocasas w q = Raises"
    using that by (rule run_scrapers_Raises_empty)
  show "run_scrapers pd w q = run_scrapers pd (w\<lparr>site_properati := \<lambda>q. Returns_frame []\<rparr>) q"
    if "site_properati w q = Raises"
    using that by (rule run_scrapers_Raises_empty)
  show "run_scrapers pd w q = run_scrapers pd (w\<lparr>site_doomos := \<lambda>q. Returns_frame []\<rparr>) q"
    if "site_doomos w q = Raises"
    using that by (rule run_scrapers_Raises_empty)
  show "run_scrapers pd w q =
           Inr (first_occurrences (\<lambda>r. (link r, titulo r))
                  (filter (\<lambda>r. link r \<noteq> '''' \<and> \<not> prefix ''#'' (link r))
                     (stamp w ''nestoria'' n @ stamp w ''infocasas'' i
                      @ stamp w ''properati'' p @ stamp w ''doomos'' d)))"
    if h: "(if site_nestoria w q = Raises then n = []
        else source_frame pd q ''nestoria'' (site_nestoria w) = Inr n)
       \<and> (if site_infocasas w q = Raises then i = []
        else source_frame pd q ''infocasas'' (site_infocasas w) = Inr i)
       \<and> (if site_properati w q = Raises then p = []
        else source_frame pd q ''properati'' (site_properati w) = Inr p)
       \<and> (if site_doomos w q = Raises then d = []
        else source_frame pd q ''doomos'' (site_doomos w) = Inr d)"
  proof -
    have "source_frame pd q ''nestoria'' (site_nestoria w) = Inr n"
      using h source_frame_Raises[of "site_nestoria w" q pd "''nestoria''"]
      by (cases "site_nestoria w q = Raises") simp_all
    moreover have "source_frame pd q ''infocasas'' (site_infocasas w) = Inr i"
      using h source_frame_Raises[of "site_infocasas w" q pd "''infocasas''"]
      by (cases "site_infocasas w q = Raises") simp_all
    moreover have "source_frame pd q ''properati'' (site_properati w) = Inr p"
      using h source_frame_Raises[of "site_properati w" q pd "''properati''"]
      by (cases "site_properati w q = Raises") simp_all
    moreover have "source_frame pd q ''doomos'' (site_doomos w) = Inr d"
      using h source_frame_Raises[of "site_doomos w" q pd "''doomos''"]
      by (cases "site_doomos w q = Raises") simp_all
    ultimately show ?thesis by (rule run_scrapers_frames)
  qed
  show "\<exists>out. run_scrapers pd w q = Inr out"
    if h: "exact_on_doubles pd \<and> query_exact q
       \<and> source_exact (site_nestoria w) q \<and> source_exact (site_infocasas w) q
       \<and> source_exact (site_properati w) q \<and> source_exact (site_doomos w) q"
  proof -
    have "list_all (\<lambda>(name, func). \<exists>rows. source_frame pd q name func = Inr rows) (SCRAPERS w)"
      using h by (simp add: SCRAPERS_def source_frame_exact)
    then show ?thesis by (simp add: run_scrapers_eq)
  qed
qed

theorem run_scrapers_source_failures_witness:
  "run_scrapers pandas_float64 (world_of Raises Raises Raises Raises)
       (query_of ''2'' ''1'' (Some 800) (Some 1500) ''piscina'')
     = Inr []
   \<and> source_frame pandas_float64 (query_of ''2'' ''1'' (Some 800) (Some 1500) '''') ''infocasas''
       (\<lambda>q. Returns_frame [fila ''Depa'' ''S/ 900'' ''2'' ''1'' ''http://x/1''])
     = Inr [fila ''Depa'' ''S/ 900'' ''2'' ''1'' ''http://x/1'']
   \<and> source_frame pandas_float64 (query_of ''2'' ''1'' (Some 800) (Some 1500) '''') ''doomos''
       (\<lambda>q. Returns_frame [fila ''Casa'' ''S/ 1,000'' ''2'' ''1'' ''http://x/2'',
                             fila ''Casa'' ''S/ 2,000'' ''2'' ''1'' ''http://x/3''])
     = Inr [fila ''Casa'' ''S/ 1,000'' ''2'' ''1'' ''http://x/2'']
   \<and> run_scrapers pandas_float64
       (world_of Raises (Returns_frame [fila ''Depa'' ''S/ 900'' ''2'' ''1'' ''http://x/1'']) Raises
          (Returns_frame [fila ''Casa'' ''S/ 1,000'' ''2'' ''1'' ''http://x/2'',
                          fila ''Casa'' ''S/ 2,000'' ''2'' ''1'' ''http://x/3'']))
       (query_of ''2'' ''1'' (Some 800) (Some 1500) '''')
     = Inr [\<lparr>titulo = ''Depa'', precio = ''S/ 900'', m2 = '''', dormitorios = ''2'', banos = ''1'',
           descripcion = '''', link = ''http://x/1'', imagen_url = '''',
           fuente = ''infocasas'', scraped_at = ''2025-01-01T00:00:00'', id_str = ''infocasas-0''\<rparr>,
          \<lparr>titulo = ''Casa'', precio = ''S/ 1,000'', m2 = '''', dormitorios = ''2'', banos = ''1'',
           descripcion = '''', link = ''http://x/2'', imagen_url = '''',
           fuente = ''doomos'', scraped_at = ''2025-01-01T00:00:00'', id_str = ''doomos-0''\<rparr>]
   \<and> run_scrapers pandas_float64
       (world_of Raises (Returns_frame [fila ''Depa'' ''S/ 900'' ''2'' ''1'' ''http://x/1'']) Raises
          (Returns_frame [fila ''Casa'' ''S/ 1,000'' ''2'' ''1'' ''http://x/2'',
                          fila ''Casa'' ''S/ 2,000'' ''2'' ''1'' ''http://x/3'']))
       (query_of ''2'' ''1'' (Some 800) (Some 1500) '''')
     = run_scrapers pandas_float64
       (world_of (Returns_frame []) (Returns_frame [fila ''Depa'' ''S/ 900'' ''2'' ''1'' ''http://x/1''])
          Raises
          (Returns_frame [fila ''Casa'' ''S/ 1,000'' ''2'' ''1'' ''http://x/2'',
                          fila ''Casa'' ''S/ 2,000'' ''2'' ''1'' ''http://x/3'']))
       (query_of ''2'' ''1'' (Some 800) (Some 1500) '''')"
proof -
  let ?i = "[fila ''Depa'' ''S/ 900'' ''2'' ''1'' ''http://x/1'']"
  let ?d = "[fila ''Casa'' ''S/ 1,000'' ''2'' ''1'' ''http://x/2'',
             fila ''Casa'' ''S/ 2,000'' ''2'' ''1'' ''http://x/3'']"
  let ?d' = "[fila ''Casa'' ''S/ 1,000'' ''2'' ''1'' ''http://x/2'']"
  let ?wa = "world_of Raises Raises Raises Raises"
  let ?qa = "query_of ''2'' ''1'' (Some 800) (Some 1500) ''piscina''"
  let ?w = "world_of Raises (Returns_frame ?i) Raises (Returns_frame ?d)"
  let ?q = "query_of ''2'' ''1'' (Some 800) (Some 1500) ''''"
  have a: "run_scrapers pandas_float64 ?wa ?qa = Inr []"
    using run_scrapers_source_failures[of ?wa ?qa pandas_float64, THEN conjunct1]
    by (simp add: world_of_def)
  have i: "source_frame pandas_float64 ?q ''infocasas'' (\<lambda>q. Returns_frame ?i) = Inr ?i"
    by code_simp
  have d: "source_frame pandas_float64 ?q ''doomos'' (\<lambda>q. Returns_frame ?d) = Inr ?d'"
    by code_simp
  have s: "site_nestoria ?w = (\<lambda>q. Raises)" "site_infocasas ?w = (\<lambda>q. Returns_frame ?i)"
    "site_properati ?w = (\<lambda>q. Raises)" "site_doomos ?w = (\<lambda>q. Returns_frame ?d)"
    by (simp_all add: world_of_def)
  note t = run_scrapers_source_failures[of ?w ?q pandas_float64 "[]" ?i "[]" ?d']
  note t2 = t[THEN conjunct2, THEN conjunct1]
  note t6 = t[THEN conjunct2, THEN conjunct2, THEN conjunct2, THEN conjunct2, THEN conjunct2,
      THEN conjunct1]
  have "run_scrapers pandas_float64 ?w ?q =
           Inr (first_occurrences (\<lambda>r. (link r, titulo r))
                  (filter (\<lambda>r. link r \<noteq> '''' \<and> \<not> prefix ''#'' (link r))
                     (stamp ?w ''nestoria'' [] @ stamp ?w ''infocasas'' ?i
                      @ stamp ?w ''properati'' [] @ stamp ?w ''doomos'' ?d')))"
    using t6 unfolding s using i d by simp
  also have "\<dots> = Inr [\<lparr>titulo = ''Depa'', precio = ''S/ 900'', m2 = '''', dormitorios = ''2'', banos = ''1'',
           descripcion = '''', link = ''http://x/1'', imagen_url = '''',
           fuente = ''infocasas'', scraped_at = ''2025-01-01T00:00:00'', id_str = ''infocasas-0''\<rparr>,
          \<lparr>titulo = ''Casa'', precio = ''S/ 1,000'', m2 = '''', dormitorios = ''2'', banos = ''1'',
           descripcion = '''', link = ''http://x/2'', imagen_url = '''',
           fuente = ''doomos'', scraped_at = ''2025-01-01T00:00:00'', id_str = ''doomos-0''\<rparr>]"
    by code_simp
  finally have b: "run_scrapers pandas_float64 ?w ?q = Inr [\<lparr>titulo = ''Depa'', precio = ''S/ 900'', m2 = '''', dormitorios = ''2'', banos = ''1'',
           descripcion = '''', link = ''http://x/1'', imagen_url = '''',
           fuente = ''infocasas'', scraped_at = ''2025-01-01T00:00:00'', id_str = ''infocasas-0''\<rparr>,
          \<lparr>titulo = ''Casa'', precio = ''S/ 1,000'', m2 = '''', dormitorios = ''2'', banos = ''1'',
           descripcion = '''', link = ''http://x/2'', imagen_url = '''',
           fuente = ''doomos'', scraped_at = ''2025-01-01T00:00:00'', id_str = ''doomos-0''\<rparr>]" .
  have u: "?w\<lparr>site_nestoria := \<lambda>q. Returns_frame []\<rparr>
      = world_of (Returns_frame []) (Returns_frame ?i) Raises (Returns_frame ?d)"
    by (simp add: world_of_def)
  have c: "run_scrapers pandas_float64 ?w ?q
      = run_scrapers pandas_float64
          (world_of (Returns_frame []) (Returns_frame ?i) Raises (Returns_frame ?d)) ?q"
    using t2 unfolding u[symmetric] by (simp add: world_of_def)
  show ?thesis using a i d b c by (intro conjI)
qed

text \<open>
  The claim as the specification words it, that the run never raises, fails when a source
  returns a row whose price holds 4301 digits: the strict filter is applied outside the
  \<open>try\<close> of the loop, \<open>int\<close> raises \<open>ValueError\<close> on the digits, and the run raises it.
\<close>

theorem run_scrapers_never_raises_counterexample:
  "run_scrapers pandas_float64
     (world_of (Returns_frame [fila ''Depa'' (replicate 4301 CHR ''7'') ''2'' ''1'' ''http://x/1''])
        Raises Raises Raises)
     (query_of ''0'' ''0'' None None '''')
   = Inl ValueError"
proof -
  let ?p = "replicate 4301 CHR ''7''"
  have sp: "strip ?p = ?p"
    by (rule strip_no_space) (simp add: list_all_iff is_space_def)
  have ne: "?p \<noteq> ''None''"
    by (rule notI) (drule arg_cong[where f = length], simp)
  have "parse_price_soles ?p = Inl ValueError"
    unfolding parse_price_soles_total by (simp add: is_digit_def max_str_digits_def)
  then have "source_frame pandas_float64 (query_of ''0'' ''0'' None None '''') ''nestoria''
      (\<lambda>q. Returns_frame [fila ''Depa'' ?p ''2'' ''1'' ''http://x/1'']) = Inl ValueError"
    using sp ne
    by (simp add: source_frame_def filter_df_strict_def apply_numbers_def fila_def
        normalize_row_def normalize_cell_def Let_def)
  then show ?thesis
    by (intro run_scrapers_first_raises) (simp add: world_of_def)
qed

section \<open>The filters on the store\<close>

lemma rows_col_update:
  "rows (f\<lparr>col_precio_soles := x\<rparr>) = rows f"
  "rows (f\<lparr>col_dorm_num := x\<rparr>) = rows f"
  "rows (f\<lparr>col_banos_num := x\<rparr>) = rows f"
  "rows (f\<lparr>col_texto_completo := y\<rparr>) = rows f"
  by (simp_all add: rows_def)

lemma rows_frame_loc: "rows (frame_loc f m) = loc_mask (rows f) m"
  by (cases "table f") (simp_all add: rows_def frame_loc_def loc_mask_def)

lemma rows_empty_frame: "rows empty_frame = []"
  by (simp add: rows_def empty_frame_def)

lemma table_exact_filter: "table_exact df \<Longrightarrow> table_exact (filter P df)"
  by (simp add: table_exact_def list_all_iff)

lemma strict_mask_columns:
  assumes pd: "exact_on_doubles pd" and df: "table_exact (rows f)"
    and ra: "request_exact a" and rb: "request_exact b"
    and lo: "bound_exact c" and hi: "bound_exact d"
    and "col_precio_soles f = Some (map (\<lambda>r. projr (parse_price_soles (precio r))) (rows f))"
    and "col_dorm_num f = Some (map (\<lambda>r. projr (extract_int_from_text (dormitorios r))) (rows f))"
    and "col_banos_num f = Some (map (\<lambda>r. projr (extract_int_from_text (banos r))) (rows f))"
  shows "strict_mask pd f a b c d = Inr (map (strict_keep a b c d) (rows f))"
proof -
  have cp: "\<And>r. r \<in> set (rows f) \<Longrightarrow> cell_exact (parse_price_soles (precio r))"
    and cd: "\<And>r. r \<in> set (rows f) \<Longrightarrow> cell_exact (extract_int_from_text (dormitorios r))"
    and cb: "\<And>r. r \<in> set (rows f) \<Longrightarrow> cell_exact (extract_int_from_text (banos r))"
    using df by (auto simp: table_exact_def list_all_iff)
  note p = apply_numbers_exact[of pd "rows f" parse_price_soles precio, OF pd cp]
  note dn = apply_numbers_exact[of pd "rows f" extract_int_from_text dormitorios, OF pd cd]
  note bn = apply_numbers_exact[of pd "rows f" extract_int_from_text banos, OF pd cb]
  have m1: "request_mask pd a
        (map (\<lambda>r. projr (extract_int_from_text (dormitorios r))) (rows f)) (map (\<lambda>r. True) (rows f))
      = map (\<lambda>r. True \<and> request_ok a (dormitorios r)) (rows f)"
    by (rule request_mask_map[OF pd ra dn(2)]) (use cd cell_exact_Inr in auto)
  have m2: "request_mask pd b
        (map (\<lambda>r. projr (extract_int_from_text (banos r))) (rows f))
        (map (\<lambda>r. True \<and> request_ok a (dormitorios r)) (rows f))
      = map (\<lambda>r. (True \<and> request_ok a (dormitorios r)) \<and> request_ok b (banos r)) (rows f)"
    by (rule request_mask_map[OF pd rb bn(2)]) (use cb cell_exact_Inr in auto)
  have m3: "price_mask pd c d
        (map (\<lambda>r. projr (parse_price_soles (precio r))) (rows f))
        (map (\<lambda>r. (True \<and> request_ok a (dormitorios r)) \<and> request_ok b (banos r)) (rows f))
      = Inr (map (\<lambda>r. ((True \<and> request_ok a (dormitorios r)) \<and> request_ok b (banos r))
                 \<and> price_ok c d (precio r)) (rows f))"
    by (rule price_mask_map[OF pd lo hi p(2)]) (use cp cell_exact_Inr in auto)
  show ?thesis
    unfolding strict_mask_def assms(7-9) Let_def replicate_True_map
    by (simp only: prod.case option.case m1 m2 m3) (simp add: strict_keep_def[abs_def])
qed

lemma filter_df_strict_on_result:
  assumes "df < next_ref s"
    and pd: "exact_on_doubles pd" and te: "table_exact (rows (objects s df))"
    and ra: "request_exact a" and rb: "request_exact b"
    and lo: "bound_exact c" and hi: "bound_exact d"
  shows "\<exists>s' out. filter_df_strict_on pd s df a b c d = Inr (s', out)
     \<and> next_ref s \<le> out \<and> out < next_ref s'
     \<and> (\<forall>r < next_ref s. objects s' r = objects s r)
     \<and> rows (objects s' out) = filter (strict_keep a b c d) (rows (objects s df))"
proof (cases "rows (objects s df) = []")
  case True
  then show ?thesis
    by (simp add: filter_df_strict_on_def new_object_def rows_empty_frame)
next
  case False
  let ?n = "next_ref s"
  let ?df = "objects s df"
  let ?f = "?df\<lparr>col_precio_soles := Some (map (\<lambda>r. projr (parse_price_soles (precio r))) (rows ?df)),
               col_dorm_num := Some (map (\<lambda>r. projr (extract_int_from_text (dormitorios r))) (rows ?df)),
               col_banos_num := Some (map (\<lambda>r. projr (extract_int_from_text (banos r))) (rows ?df))\<rparr>"
  have cp: "\<And>r. r \<in> set (rows ?df) \<Longrightarrow> cell_exact (parse_price_soles (precio r))"
    and cd: "\<And>r. r \<in> set (rows ?df) \<Longrightarrow> cell_exact (extract_int_from_text (dormitorios r))"
    and cb: "\<And>r. r \<in> set (rows ?df) \<Longrightarrow> cell_exact (extract_int_from_text (banos r))"
    using te by (auto simp: table_exact_def list_all_iff)
  note p = apply_numbers_exact(1)[of pd "rows ?df" parse_price_soles precio, OF pd cp]
  note dn = apply_numbers_exact(1)[of pd "rows ?df" extract_int_from_text dormitorios, OF pd cd]
  note bn = apply_numbers_exact(1)[of pd "rows ?df" extract_int_from_text banos, OF pd cb]
  have rf: "rows ?f = rows ?df" by (simp add: rows_col_update)
  have m: "strict_mask pd ?f a b c d = Inr (map (strict_keep a b c d) (rows ?df))"
    using strict_mask_columns[of pd ?f a b c d, OF pd _ ra rb lo hi] te unfolding rf by simp
  have "filter_df_strict_on pd s df a b c d =
      Inr (s\<lparr>objects := (objects s)(?n := ?f,
                Suc ?n := (frame_loc ?f (map (strict_keep a b c d) (rows ?df)))
                   \<lparr>col_precio_soles := None, col_dorm_num := None, col_banos_num := None\<rparr>),
             next_ref := Suc (Suc ?n)\<rparr>, Suc ?n)"
    using False m
    by (simp add: filter_df_strict_on_def new_object_def update_object_def p dn bn
        rows_col_update)
  then show ?thesis
    using assms(1) by (simp add: rows_frame_loc rows_col_update loc_mask_map)
qed

lemma loc_mask_map_col: "loc_mask (map f xs) (map P xs) = map f (filter P xs)"
  by (induction xs) (simp_all add: loc_mask_def)

lemma keywords_loop_result:
  assumes "col_texto_completo (objects s dfc) = Some (map texto_completo (rows (objects s dfc)))"
  shows "\<exists>s' out. keywords_loop ps s dfc = Inr (s', out)
     \<and> (out = dfc \<or> next_ref s \<le> out) \<and> (dfc < next_ref s \<longrightarrow> out < next_ref s')
     \<and> next_ref s \<le> next_ref s'
     \<and> (\<forall>r < next_ref s. objects s' r = objects s r)
     \<and> rows (objects s' out) =
         filter (\<lambda>r. list_all (\<lambda>p. str_contains_nocase p (texto_completo r)) ps)
           (rows (objects s dfc))"
  using assms
proof (induction ps arbitrary: s dfc)
  case Nil
  then show ?case by simp
next
  case (Cons p ps)
  let ?rows = "rows (objects s dfc)"
  let ?keep = "\<lambda>r. str_contains_nocase p (texto_completo r)"
  let ?g = "frame_loc (objects s dfc) (map (str_contains_nocase p) (map texto_completo ?rows))"
  let ?s1 = "s\<lparr>objects := (objects s)(next_ref s := ?g), next_ref := Suc (next_ref s)\<rparr>"
  have g_rows: "rows ?g = filter ?keep ?rows"
    by (simp add: rows_frame_loc loc_mask_map comp_def)
  have g_col: "col_texto_completo ?g = Some (map texto_completo (filter ?keep ?rows))"
    using Cons.prems
    by (simp add: frame_loc_def loc_mask_map_col comp_def)
  have step: "keywords_loop (p # ps) s dfc = keywords_loop ps ?s1 (next_ref s)"
    using Cons.prems by (simp add: new_object_def)
  have pre: "col_texto_completo (objects ?s1 (next_ref s))
      = Some (map texto_completo (rows (objects ?s1 (next_ref s))))"
    using g_rows g_col by simp
  obtain s' out where r: "keywords_loop ps ?s1 (next_ref s) = Inr (s', out)"
     "out = next_ref s \<or> next_ref ?s1 \<le> out" "next_ref s < next_ref ?s1 \<longrightarrow> out < next_ref s'"
     "next_ref ?s1 \<le> next_ref s'"
     "\<forall>r < next_ref ?s1. objects s' r = objects ?s1 r"
     "rows (objects s' out) =
         filter (\<lambda>r. list_all (\<lambda>p. str_contains_nocase p (texto_completo r)) ps)
           (rows (objects ?s1 (next_ref s)))"
    using Cons.IH[OF pre] by blast
  have "rows (objects s' out) =
         filter (\<lambda>r. list_all (\<lambda>p. str_contains_nocase p (texto_completo r)) (p # ps)) ?rows"
    using r(6) g_rows by (simp add: conj_commute)
  moreover have "\<forall>r < next_ref s. objects s' r = objects s r"
    using r(5) by simp
  moreover have "next_ref s \<le> out" "out < next_ref s'" "next_ref s \<le> next_ref s'"
    using r(2,3,4) by auto
  ultimately show ?case
    unfolding step using r(1) by auto
qed

lemma lower_texto_completo: "lower (texto_completo r) = texto_completo r"
  by (simp add: texto_completo_def lower_idem)

lemma keyword_pred_eq:
  "list_all (\<lambda>p. str_contains_nocase p (texto_completo r)) (split (lower kw))
     = list_all (\<lambda>w. sublist (lower w) (texto_completo r)) (split kw)"
  by (simp add: split_lower list.pred_map comp_def str_contains_nocase_def lower_idem
      lower_texto_completo)

lemma filter_by_keywords_on_result:
  assumes "df < next_ref s"
  shows "\<exists>s' out. filter_by_keywords_on s df kw = Inr (s', out)
     \<and> out < next_ref s' \<and> next_ref s \<le> next_ref s'
     \<and> (\<forall>r < next_ref s. objects s' r = objects s r)
     \<and> rows (objects s' out) = filter_by_keywords (rows (objects s df)) kw"
proof (cases "rows (objects s df) = [] \<or> kw = [] \<or> strip kw = []")
  case True
  then show ?thesis
    using assms by (auto simp: filter_by_keywords_on_def filter_by_keywords_def)
next
  case False
  let ?s1 = "update_object (fst (new_object s (objects s df))) (next_ref s)
               (\<lambda>f. f\<lparr>col_texto_completo := Some (map texto_completo (rows f))\<rparr>)"
  have s1: "next_ref ?s1 = Suc (next_ref s)"
    "rows (objects ?s1 (next_ref s)) = rows (objects s df)"
    "\<forall>r < next_ref s. objects ?s1 r = objects s r"
    by (simp_all add: new_object_def update_object_def rows_col_update)
  have pre: "col_texto_completo (objects ?s1 (next_ref s))
      = Some (map texto_completo (rows (objects ?s1 (next_ref s))))"
    by (simp add: new_object_def update_object_def rows_col_update)
  obtain s' out where r: "keywords_loop (split (lower kw)) ?s1 (next_ref s) = Inr (s', out)"
     "next_ref s < next_ref ?s1 \<longrightarrow> out < next_ref s'"
     "\<forall>r < next_ref ?s1. objects s' r = objects ?s1 r"
     "out = next_ref s \<or> next_ref ?s1 \<le> out"
     "rows (objects s' out) =
         filter (\<lambda>r. list_all (\<lambda>p. str_contains_nocase p (texto_completo r)) (split (lower kw)))
           (rows (objects ?s1 (next_ref s)))"
    using keywords_loop_result[OF pre, of "split (lower kw)"] by blast
  have v: "filter_by_keywords (rows (objects s df)) kw =
      filter (\<lambda>r. list_all (\<lambda>p. str_contains_nocase p (texto_completo r)) (split (lower kw)))
           (rows (objects s df))"
    using False by (simp add: filter_by_keywords_filter keyword_pred_eq)
  have e: "filter_by_keywords_on s df kw =
      Inr (update_object s' out (\<lambda>f. f\<lparr>col_texto_completo := None\<rparr>), out)"
    using False r(1)
    by (simp add: filter_by_keywords_on_def Let_def split_beta new_object_def)
  have "next_ref s \<le> out" using r(4) s1(1) by auto
  moreover have "out < next_ref s'" using r(2) s1(1) by simp
  moreover have "\<forall>r < next_ref s. objects s' r = objects s r" using r(3) s1(1,3) by simp
  moreover have "rows (objects s' out) = filter_by_keywords (rows (objects s df)) kw"
    using r(5) s1(2) v by simp
  ultimately show ?thesis
    unfolding e by (simp add: update_object_def rows_col_update)
qed

lemma filter_by_keywords_idem:
  "filter_by_keywords (filter_by_keywords df kw) kw = filter_by_keywords df kw"
  by (simp add: filter_by_keywords_filter)

section \<open>Idempotence and absence of side effects\<close>

text \<open>
  Claim C6, as the code has it. For a table object of the store and fixed arguments:
  when the library holds integers of magnitude up to \<open>2^53\<close> exactly and the cells of the
  table, the requests and the bounds stay within that range, the strict filter returns a
  table; applied again to that table it returns a table with the same rows; and after both
  applications the input object is what it was, as is the first output after the second
  application. For the keyword filter the same holds on every table object. The rows
  returned on the store are those the filter functions return on the rows. The statement is
  about the rows: a table that the strict filter has emptied keeps its columns, and loses
  them when the filter is applied to it again.
\<close>

theorem filters_idempotent_without_side_effects:
  assumes "df < next_ref s"
  shows "(exact_on_doubles pd \<and> table_exact (rows (objects s df))
          \<and> request_exact a \<and> request_exact b \<and> bound_exact c \<and> bound_exact d
          \<longrightarrow> (\<exists>s1 out1 s2 out2.
            filter_df_strict_on pd s df a b c d = Inr (s1, out1)
          \<and> filter_df_strict pd (rows (objects s df)) a b c d = Inr (rows (objects s1 out1))
          \<and> filter_df_strict_on pd s1 out1 a b c d = Inr (s2, out2)
          \<and> rows (objects s2 out2) = rows (objects s1 out1)
          \<and> objects s1 df = objects s df \<and> objects s2 df = objects s df
          \<and> objects s2 out1 = objects s1 out1))
       \<and> (\<exists>s1 out1 s2 out2.
            filter_by_keywords_on s df kw = Inr (s1, out1)
          \<and> filter_by_keywords (rows (objects s df)) kw = rows (objects s1 out1)
          \<and> filter_by_keywords_on s1 out1 kw = Inr (s2, out2)
          \<and> rows (objects s2 out2) = rows (objects s1 out1)
          \<and> objects s1 df = objects s df \<and> objects s2 df = objects s df
          \<and> objects s2 out1 = objects s1 out1)"
proof (intro conjI impI)
  assume h: "exact_on_doubles pd \<and> table_exact (rows (objects s df))
          \<and> request_exact a \<and> request_exact b \<and> bound_exact c \<and> bound_exact d"
  then have pd: "exact_on_doubles pd" and te: "table_exact (rows (objects s df))"
    and ra: "request_exact a" and rb: "request_exact b"
    and lo: "bound_exact c" and hi: "bound_exact d"
    by simp_all
  obtain s1 out1 where r1: "filter_df_strict_on pd s df a b c d = Inr (s1, out1)"
    "next_ref s \<le> out1" "out1 < next_ref s1" "\<forall>r < next_ref s. objects s1 r = objects s r"
    "rows (objects s1 out1) = filter (strict_keep a b c d) (rows (objects s df))"
    using filter_df_strict_on_result[OF assms pd te ra rb lo hi] by blast
  have te1: "table_exact (rows (objects s1 out1))"
    unfolding r1(5) using te by (rule table_exact_filter)
  obtain s2 out2 where r2: "filter_df_strict_on pd s1 out1 a b c d = Inr (s2, out2)"
    "\<forall>r < next_ref s1. objects s2 r = objects s1 r"
    "rows (objects s2 out2) = filter (strict_keep a b c d) (rows (objects s1 out1))"
    using filter_df_strict_on_result[OF r1(3) pd te1 ra rb lo hi] by blast
  have "rows (objects s2 out2) = rows (objects s1 out1)"
    unfolding r2(3) r1(5) by simp
  moreover have "objects s1 df = objects s df" using r1(4) assms by simp
  moreover have "objects s2 df = objects s df" using r1(2,3,4) r2(2) assms by simp
  moreover have "objects s2 out1 = objects s1 out1" using r2(2) r1(3) by simp
  moreover have "filter_df_strict pd (rows (objects s df)) a b c d = Inr (rows (objects s1 out1))"
    unfolding r1(5) using pd te ra rb lo hi by (rule filter_df_strict_filter)
  ultimately show "\<exists>s1 out1 s2 out2.
            filter_df_strict_on pd s df a b c d = Inr (s1, out1)
          \<and> filter_df_strict pd (rows (objects s df)) a b c d = Inr (rows (objects s1 out1))
          \<and> filter_df_strict_on pd s1 out1 a b c d = Inr (s2, out2)
          \<and> rows (objects s2 out2) = rows (objects s1 out1)
          \<and> objects s1 df = objects s df \<and> objects s2 df = objects s df
          \<and> objects s2 out1 = objects s1 out1"
    using r1(1) r2(1) by blast
next
  obtain s1 out1 where r1: "filter_by_keywords_on s df kw = Inr (s1, out1)"
    "out1 < next_ref s1" "next_ref s \<le> next_ref s1" "\<forall>r < next_ref s. objects s1 r = objects s r"
    "rows (objects s1 out1) = filter_by_keywords (rows (objects s df)) kw"
    using filter_by_keywords_on_result[OF assms, of kw] by blast
  obtain s2 out2 where r2: "filter_by_keywords_on s1 out1 kw = Inr (s2, out2)"
    "\<forall>r < next_ref s1. objects s2 r = objects s1 r"
    "rows (objects s2 out2) = filter_by_keywords (rows (objects s1 out1)) kw"
    using filter_by_keywords_on_result[OF r1(2), of kw] by blast
  have "rows (objects s2 out2) = rows (objects s1 out1)"
    unfolding r2(3) r1(5) by (rule filter_by_keywords_idem)
  moreover have "objects s1 df = objects s df" using r1(4) assms by simp
  moreover have "objects s2 df = objects s df" using r1(3,4) r2(2) assms by simp
  moreover have "objects s2 out1 = objects s1 out1" using r2(2) r1(2) by simp
  ultimately show "\<exists>s1 out1 s2 out2.
            filter_by_keywords_on s df kw = Inr (s1, out1)
          \<and> filter_by_keywords (rows (objects s df)) kw = rows (objects s1 out1)
          \<and> filter_by_keywords_on s1 out1 kw = Inr (s2, out2)
          \<and> rows (objects s2 out2) = rows (objects s1 out1)
          \<and> objects s1 df = objects s df \<and> objects s2 df = objects s df
          \<and> objects s2 out1 = objects s1 out1"
    using r1(1,5) r2(1) by metis
qed

theorem filters_idempotent_without_side_effects_witness:
  "0 < next_ref (store_of [fila ''a'' ''S/ 900'' ''1'' '''' ''u1'', fila ''b con piscina'' ''S/ 950'' ''2'' '''' ''u2''])
   \<and> exact_on_doubles pandas_float64
   \<and> table_exact (rows (objects
        (store_of [fila ''a'' ''S/ 900'' ''1'' '''' ''u1'',
                   fila ''b con piscina'' ''S/ 950'' ''2'' '''' ''u2'']) 0))
   \<and> request_exact (Some ''2'') \<and> request_exact None \<and> bound_exact None
   \<and> (\<exists>s1 out1 s2 out2.
         filter_df_strict_on pandas_float64
           (store_of [fila ''a'' ''S/ 900'' ''1'' '''' ''u1'', fila ''b con piscina'' ''S/ 950'' ''2'' '''' ''u2''])
           0 (Some ''2'') None None None = Inr (s1, out1)
       \<and> filter_df_strict_on pandas_float64 s1 out1 (Some ''2'') None None None = Inr (s2, out2)
       \<and> rows (objects s2 out2) = rows (objects s1 out1)
       \<and> objects s2 0 =
           objects (store_of [fila ''a'' ''S/ 900'' ''1'' '''' ''u1'',
                              fila ''b con piscina'' ''S/ 950'' ''2'' '''' ''u2'']) 0)
   \<and> map_sum id (\<lambda>(s1, out1). (out1, rows (objects s1 out1), rows (objects s1 0)))
        (filter_df_strict_on pandas_float64
           (store_of [fila ''a'' ''S/ 900'' ''1'' '''' ''u1'', fila ''b con piscina'' ''S/ 950'' ''2'' '''' ''u2''])
           0 (Some ''2'') None None None)
       = Inr (2, [fila ''b con piscina'' ''S/ 950'' ''2'' '''' ''u2''],
              [fila ''a'' ''S/ 900'' ''1'' '''' ''u1'', fila ''b con piscina'' ''S/ 950'' ''2'' '''' ''u2''])
   \<and> map_sum id (\<lambda>(s1, out1). (out1, rows (objects s1 out1), rows (objects s1 0)))
        (filter_by_keywords_on
           (store_of [fila ''a'' ''S/ 900'' ''1'' '''' ''u1'', fila ''b con piscina'' ''S/ 950'' ''2'' '''' ''u2''])
           0 ''Piscina'')
       = Inr (2, [fila ''b con piscina'' ''S/ 950'' ''2'' '''' ''u2''],
              [fila ''a'' ''S/ 900'' ''1'' '''' ''u1'', fila ''b con piscina'' ''S/ 950'' ''2'' '''' ''u2''])"
proof -
  let ?s = "store_of [fila ''a'' ''S/ 900'' ''1'' '''' ''u1'', fila ''b con piscina'' ''S/ 950'' ''2'' '''' ''u2'']"
  have lt: "0 < next_ref ?s" by (simp add: store_of_def)
  note pd = exact_on_doubles_pandas_float64
  have te: "table_exact (rows (objects ?s 0))" by code_simp
  have r: "request_exact (Some ''2'')" "request_exact None" by code_simp+
  have b: "bound_exact None" by (simp add: bound_exact_def)
  have i: "\<exists>s1 out1 s2 out2.
         filter_df_strict_on pandas_float64 ?s 0 (Some ''2'') None None None = Inr (s1, out1)
       \<and> filter_df_strict_on pandas_float64 s1 out1 (Some ''2'') None None None = Inr (s2, out2)
       \<and> rows (objects s2 out2) = rows (objects s1 out1)
       \<and> objects s2 0 = objects ?s 0"
    using filters_idempotent_without_side_effects[OF lt,
        of pandas_float64 "Some ''2''" None None None "''''", THEN conjunct1]
      pd te r b
    by blast
  have v: "map_sum id (\<lambda>(s1, out1). (out1, rows (objects s1 out1), rows (objects s1 0)))
        (filter_df_strict_on pandas_float64 ?s 0 (Some ''2'') None None None)
       = Inr (2, [fila ''b con piscina'' ''S/ 950'' ''2'' '''' ''u2''],
              [fila ''a'' ''S/ 900'' ''1'' '''' ''u1'', fila ''b con piscina'' ''S/ 950'' ''2'' '''' ''u2''])"
    by code_simp
  have k: "map_sum id (\<lambda>(s1, out1). (out1, rows (objects s1 out1), rows (objects s1 0)))
        (filter_by_keywords_on ?s 0 ''Piscina'')
       = Inr (2, [fila ''b con piscina'' ''S/ 950'' ''2'' '''' ''u2''],
              [fila ''a'' ''S/ 900'' ''1'' '''' ''u1'', fila ''b con piscina'' ''S/ 950'' ''2'' '''' ''u2''])"
    by code_simp
  show ?thesis using lt pd te r b i v k by (intro conjI)
qed

text \<open>
  The claim as the specification words it, for every input table, fails for the strict
  filter. With \<open>price_max = 2^53\<close>, of the rows priced \<open>S/ 9007199254740993\<close> and \<open>consultar\<close>
  the first is retained: the price column mixes an integer with \<open>None\<close>, so it is \<open>float64\<close>
  and holds \<open>2^53 + 1\<close> as \<open>2^53\<close>. Applied to its output, the filter drops that row: the
  column now holds integers only and \<open>2^53 + 1\<close> exceeds the bound. And a table that the
  filter has emptied still has its columns, where the second application returns a table
  without columns.
\<close>

theorem filters_idempotent_claim_counterexample:
  "filter_df_strict pandas_float64
       [fila ''a'' ''S/ 9007199254740993'' '''' '''' ''u1'', fila ''b'' ''consultar'' '''' '''' ''u2'']
       None None None (Some 9007199254740992)
     = Inr [fila ''a'' ''S/ 9007199254740993'' '''' '''' ''u1'']
   \<and> filter_df_strict pandas_float64
       [fila ''a'' ''S/ 9007199254740993'' '''' '''' ''u1'']
       None None None (Some 9007199254740992)
     = Inr []
   \<and> (case filter_df_strict_on pandas_float64
            (store_of [fila ''a'' ''S/ 9007199254740993'' '''' '''' ''u1'',
                       fila ''b'' ''consultar'' '''' '''' ''u2''])
            0 None None None (Some 9007199254740992) of
         Inl e \<Rightarrow> False
       | Inr (s1, out1) \<Rightarrow>
           rows (objects s1 out1) = [fila ''a'' ''S/ 9007199254740993'' '''' '''' ''u1'']
           \<and> (case filter_df_strict_on pandas_float64 s1 out1
                      None None None (Some 9007199254740992) of
                 Inl e \<Rightarrow> False
               | Inr (s2, out2) \<Rightarrow> rows (objects s2 out2) = []))
   \<and> (case filter_df_strict_on pandas_float64
            (store_of [fila ''a'' ''S/ 900'' ''1'' '''' ''u1'']) 0 (Some ''2'') None None None of
         Inl e \<Rightarrow> False
       | Inr (s1, out1) \<Rightarrow>
           table (objects s1 out1) = Some []
           \<and> (case filter_df_strict_on pandas_float64 s1 out1 (Some ''2'') None None None of
                 Inl e \<Rightarrow> False
               | Inr (s2, out2) \<Rightarrow> table (objects s2 out2) = None))"
  by code_simp

end
